theory Spec2Isabelle
  imports Main
begin

section \<open>Python values used by \<open>forgeloop_cli\<close>\<close>

text \<open>
  A Python \<open>str\<close> is a sequence of Unicode code points, so it is modelled as a list of
  natural numbers; \<open>lit\<close> turns an ASCII literal of the source into such a list.
  Characters of the source's literals beyond ASCII are written as their code points.
\<close>

type_synonym pystr = "nat list"

definition lit :: "string \<Rightarrow> pystr" where
  "lit s = map of_char s"

text \<open>Truthiness of a \<open>str\<close>: the empty string is falsy.\<close>

definition truthy :: "pystr \<Rightarrow> bool" where
  "truthy s = (s \<noteq> [])"

text \<open>
  \<open>str.isspace\<close> on one code point, as CPython's \<open>_PyUnicode_IsWhitespace\<close> lists them.
\<close>

definition py_isspace :: "nat \<Rightarrow> bool" where
  "py_isspace c =
     ((9 \<le> c \<and> c \<le> 13) \<or> (28 \<le> c \<and> c \<le> 32) \<or> c = 133 \<or> c = 160 \<or> c = 5760 \<or>
      (8192 \<le> c \<and> c \<le> 8202) \<or> c = 8232 \<or> c = 8233 \<or> c = 8239 \<or> c = 8287 \<or> c = 12288)"

text \<open>\<open>str.strip()\<close> with no argument: whitespace is dropped at both ends.\<close>

definition strip :: "pystr \<Rightarrow> pystr" where
  "strip s = rev (dropWhile py_isspace (rev (dropWhile py_isspace s)))"

text \<open>\<open>sep.join(xs)\<close>.\<close>

fun join :: "pystr \<Rightarrow> pystr list \<Rightarrow> pystr" where
  "join sep [] = []"
| "join sep [x] = x"
| "join sep (x # y # ys) = x @ sep @ join sep (y # ys)"

text \<open>
  The exceptions that occur. \<open>isinstance_Exception\<close> tells the subclasses of
  \<open>Exception\<close> from the exceptions that derive from \<open>BaseException\<close> only; an
  \<open>except Exception\<close> clause catches the former alone.
\<close>

datatype py_exception =
    ValueError
  | OverflowError
  | OSError
  | OtherException pystr
  | KeyboardInterrupt
  | SystemExit
  | GeneratorExit
  | OtherBaseException pystr

fun isinstance_Exception :: "py_exception \<Rightarrow> bool" where
  "isinstance_Exception ValueError = True"
| "isinstance_Exception OverflowError = True"
| "isinstance_Exception OSError = True"
| "isinstance_Exception (OtherException n) = True"
| "isinstance_Exception KeyboardInterrupt = False"
| "isinstance_Exception SystemExit = False"
| "isinstance_Exception GeneratorExit = False"
| "isinstance_Exception (OtherBaseException n) = False"

section \<open>\<open>StepTracker\<close>\<close>

text \<open>
  A step is the dict \<open>{"key", "label", "status", "detail"}\<close>; the status is a string in
  the source and stays one here.
\<close>

record step =
  key :: pystr
  label :: pystr
  status :: pystr
  detail :: pystr

text \<open>
  The refresh callback is a zero-argument callable with effects of its own. It runs on a
  world \<open>'w\<close> outside the tracker, may read the tracker it was bound to (its title and
  steps), and either returns (\<open>None\<close>) or raises.
\<close>

type_synonym 'w callback = "pystr \<times> step list \<Rightarrow> 'w \<Rightarrow> py_exception option \<times> 'w"

record 'w tracker =
  title :: pystr
  steps :: "step list"
  status_order :: "(pystr \<times> nat) list"
  refresh_cb :: "'w callback option"

text \<open>\<open>StepTracker.__init__\<close>.\<close>

definition StepTracker_init :: "pystr \<Rightarrow> 'w tracker" where
  "StepTracker_init t =
     \<lparr> title = t, steps = [],
       status_order = [(lit ''pending'', 0), (lit ''running'', 1), (lit ''done'', 2),
                       (lit ''error'', 3), (lit ''skipped'', 4)],
       refresh_cb = None \<rparr>"

text \<open>\<open>attach_refresh\<close>; the argument may be \<open>None\<close>.\<close>

definition attach_refresh :: "'w callback option \<Rightarrow> 'w tracker \<Rightarrow> 'w tracker" where
  "attach_refresh cb t = t\<lparr> refresh_cb := cb \<rparr>"

text \<open>
  \<open>_maybe_refresh\<close>: the callback, if any, is called; what it raises is dropped when it
  is an \<open>Exception\<close> and leaves the method otherwise. The result is the exception that
  propagates, if any, and the world after the call.
\<close>

definition maybe_refresh :: "'w tracker \<Rightarrow> 'w \<Rightarrow> py_exception option \<times> 'w" where
  "maybe_refresh t w =
     (case refresh_cb t of
        None \<Rightarrow> (None, w)
      | Some cb \<Rightarrow>
          (case cb (title t, steps t) w of
             (None, w') \<Rightarrow> (None, w')
           | (Some e, w') \<Rightarrow> if isinstance_Exception e then (None, w') else (Some e, w')))"

text \<open>
  Every method below takes the tracker and the world and returns the exception that
  leaves the call (\<open>None\<close> for a normal return), the tracker and the world. The steps
  are mutated before the callback runs, so the tracker returned holds the mutation also
  when an exception propagates.
\<close>

type_synonym 'w outcome = "py_exception option \<times> 'w tracker \<times> 'w"

definition add :: "pystr \<Rightarrow> pystr \<Rightarrow> 'w tracker \<Rightarrow> 'w \<Rightarrow> 'w outcome" where
  "add k l t w =
     (if k \<notin> set (map key (steps t)) then
        (let t' = t\<lparr> steps := steps t @
                     [\<lparr> key = k, label = l, status = lit ''pending'', detail = [] \<rparr>] \<rparr>;
             (e, w') = maybe_refresh t' w
         in (e, t', w'))
      else (None, t, w))"

text \<open>
  The loop of \<open>_update\<close>: the first step with the key gets the status, and the detail
  when the detail given is non-empty; \<open>None\<close> when the loop ends without a match.
\<close>

fun update_loop :: "pystr \<Rightarrow> pystr \<Rightarrow> pystr \<Rightarrow> step list \<Rightarrow> step list option" where
  "update_loop k st d [] = None"
| "update_loop k st d (s # ss) =
     (if key s = k then
        Some ((if truthy d then s\<lparr> status := st, detail := d \<rparr> else s\<lparr> status := st \<rparr>) # ss)
      else map_option ((#) s) (update_loop k st d ss))"

definition update :: "pystr \<Rightarrow> pystr \<Rightarrow> pystr \<Rightarrow> 'w tracker \<Rightarrow> 'w \<Rightarrow> 'w outcome" where
  "update k st d t w =
     (case update_loop k st d (steps t) of
        Some ss \<Rightarrow>
          (let t' = t\<lparr> steps := ss \<rparr>; (e, w') = maybe_refresh t' w in (e, t', w'))
      | None \<Rightarrow>
          (let t' = t\<lparr> steps := steps t @
                       [\<lparr> key = k, label = k, status = st, detail = d \<rparr>] \<rparr>;
               (e, w') = maybe_refresh t' w
           in (e, t', w')))"

definition start :: "pystr \<Rightarrow> pystr \<Rightarrow> 'w tracker \<Rightarrow> 'w \<Rightarrow> 'w outcome" where
  "start k d = update k (lit ''running'') d"

definition complete :: "pystr \<Rightarrow> pystr \<Rightarrow> 'w tracker \<Rightarrow> 'w \<Rightarrow> 'w outcome" where
  "complete k d = update k (lit ''done'') d"

definition error :: "pystr \<Rightarrow> pystr \<Rightarrow> 'w tracker \<Rightarrow> 'w \<Rightarrow> 'w outcome" where
  "error k d = update k (lit ''error'') d"

definition skip :: "pystr \<Rightarrow> pystr \<Rightarrow> 'w tracker \<Rightarrow> 'w \<Rightarrow> 'w outcome" where
  "skip k d = update k (lit ''skipped'') d"

text \<open>
  \<open>render\<close> builds a \<open>rich.tree.Tree\<close>: a label, a guide style and the children added
  to it, each a leaf whose label is one line of markup.
\<close>

record tree =
  tree_label :: pystr
  guide_style :: pystr
  children :: "pystr list"

definition Tree :: "pystr \<Rightarrow> pystr \<Rightarrow> tree" where
  "Tree l g = \<lparr> tree_label = l, guide_style = g, children = [] \<rparr>"

definition tree_add :: "pystr \<Rightarrow> tree \<Rightarrow> tree" where
  "tree_add line tr = tr\<lparr> children := children tr @ [line] \<rparr>"

text \<open>The status symbol; U+25CF is the filled circle, U+25CB the empty one.\<close>

definition symbol :: "pystr \<Rightarrow> pystr" where
  "symbol st =
     (if st = lit ''done'' then lit ''[green]'' @ [9679] @ lit ''[/green]''
      else if st = lit ''pending'' then lit ''[green dim]'' @ [9675] @ lit ''[/green dim]''
      else if st = lit ''running'' then lit ''[cyan]'' @ [9675] @ lit ''[/cyan]''
      else if st = lit ''error'' then lit ''[red]'' @ [9679] @ lit ''[/red]''
      else if st = lit ''skipped'' then lit ''[yellow]'' @ [9675] @ lit ''[/yellow]''
      else lit '' '')"

text \<open>The body of the loop of \<open>render\<close>: the line of one step.\<close>

definition render_line :: "step \<Rightarrow> pystr" where
  "render_line s =
     (let detail_text = (if truthy (detail s) then strip (detail s) else []);
          sym = symbol (status s)
      in if status s = lit ''pending'' then
           (if truthy detail_text then
              sym @ lit '' [bright_black]'' @ label s @ lit '' ('' @ detail_text @
                lit '')[/bright_black]''
            else sym @ lit '' [bright_black]'' @ label s @ lit ''[/bright_black]'')
         else
           (if truthy detail_text then
              sym @ lit '' [white]'' @ label s @ lit ''[/white] [bright_black]('' @
                detail_text @ lit '')[/bright_black]''
            else sym @ lit '' [white]'' @ label s @ lit ''[/white]''))"

fun render_loop :: "step list \<Rightarrow> tree \<Rightarrow> tree" where
  "render_loop [] tr = tr"
| "render_loop (s # ss) tr = render_loop ss (tree_add (render_line s) tr)"

text \<open>
  \<open>render\<close> is a method of the tracker, so it is given the tracker and returns it with
  the tree; the source assigns to none of the tracker's attributes and calls no callback.
\<close>

definition render :: "'w tracker \<Rightarrow> tree \<times> 'w tracker" where
  "render t =
     (render_loop (steps t)
        (Tree (lit ''[cyan]'' @ title t @ lit ''[/cyan]'') (lit ''grey50'')), t)"

text \<open>
  The objects behind a tracker. \<open>self.steps\<close> is a list object that holds references to
  the step dicts, and \<open>render\<close> creates a \<open>Tree\<close> object and calls \<open>tree.add\<close> on it,
  which mutates that object. What \<open>render\<close> leaves alone is therefore a question about
  objects: the store is the sequence of the objects allocated so far, an address is an
  index into it, and a new object goes to the end. Strings are immutable and are held in
  place. A step dict holds exactly the four keys it was created with.
\<close>

type_synonym addr = nat

record 'w tracker_obj =
  self_title :: pystr
  self_steps :: addr
  self_status_order :: "(pystr \<times> nat) list"
  self_refresh_cb :: "'w callback option"

datatype 'w obj =
    TrackerObj "'w tracker_obj"
  | ListObj "addr list"
  | DictObj step
  | TreeObj tree

type_synonym 'w store = "'w obj list"

definition cell :: "'w store \<Rightarrow> addr \<Rightarrow> 'w obj option" where
  "cell s a = (if a < length s then Some (s ! a) else None)"

definition new_obj :: "'w obj \<Rightarrow> 'w store \<Rightarrow> addr \<times> 'w store" where
  "new_obj ob s = (length s, s @ [ob])"

text \<open>\<open>tree.add(line)\<close> on the object at an address.\<close>

definition tree_add_obj :: "addr \<Rightarrow> pystr \<Rightarrow> 'w store \<Rightarrow> py_exception option \<times> 'w store" where
  "tree_add_obj a line s =
     (case cell s a of
        Some (TreeObj tr) \<Rightarrow> (None, s[a := TreeObj (tree_add line tr)])
      | _ \<Rightarrow> (Some (OtherException (lit ''AttributeError'')), s))"

text \<open>
  The loop \<open>for step in self.steps\<close>: the iterator holds the list object and an index, and
  reads the list as it is at each turn. It ends because a turn that goes on has written
  to a \<open>Tree\<close> object only, which is not the list.
\<close>

function render_for ::
  "addr \<Rightarrow> nat \<Rightarrow> addr \<Rightarrow> 'w store \<Rightarrow> py_exception option \<times> 'w store" where
  "render_for lst i tr s =
     (case cell s lst of
        Some (ListObj as) \<Rightarrow>
          if i < length as then
            (case cell s (as ! i) of
               Some (DictObj step) \<Rightarrow>
                 (case tree_add_obj tr (render_line step) s of
                    (None, s') \<Rightarrow> render_for lst (Suc i) tr s'
                  | (Some x, s') \<Rightarrow> (Some x, s'))
             | _ \<Rightarrow> (Some (OtherException (lit ''TypeError'')), s))
          else (None, s)
      | _ \<Rightarrow> (Some (OtherException (lit ''TypeError'')), s))"
  by pat_completeness auto
termination
proof (relation "measure (\<lambda>(lst, i, tr, s).
    case cell s lst of Some (ListObj as) \<Rightarrow> length as - i | _ \<Rightarrow> 0)")
  show "wf (measure (\<lambda>(lst, i, tr, s).
    case cell s lst of Some (ListObj as) \<Rightarrow> length as - i | _ \<Rightarrow> 0))" by simp
next
  fix lst i tr and s :: "'w store" and x2 x2a x2b x2c x y x2d
  assume a: "cell s lst = Some x2" "x2 = ListObj x2a" "i < length x2a"
    "cell s (x2a ! i) = Some x2b" "x2b = DictObj x2c"
    "(x, y) = tree_add_obj tr (render_line x2c) s" "x = None"
  from a(6,7) obtain t0 where t: "cell s tr = Some (TreeObj t0)"
    and y: "y = s[tr := TreeObj (tree_add (render_line x2c) t0)]"
    by (auto simp: tree_add_obj_def split: option.splits obj.splits)
  from t a(1,2) have "tr \<noteq> lst" by auto
  with a(1,2) y have "cell y lst = Some (ListObj x2a)"
    by (auto simp: cell_def split: if_splits)
  with a(1,2,3) show "((lst, Suc i, tr, y), lst, i, tr, s) \<in> measure (\<lambda>(lst, i, tr, s).
    case cell s lst of Some (ListObj as) \<Rightarrow> length as - i | _ \<Rightarrow> 0)"
    by simp
qed

declare render_for.simps [simp del]

text \<open>
  \<open>render\<close> on the store: \<open>self\<close> is the address of the tracker; the result is the address
  of the new tree, or the exception raised, and the store after the call.
\<close>

definition render_obj :: "addr \<Rightarrow> 'w store \<Rightarrow> (py_exception + addr) \<times> 'w store" where
  "render_obj self s =
     (case cell s self of
        Some (TrackerObj ob) \<Rightarrow>
          (case new_obj (TreeObj (Tree (lit ''[cyan]'' @ self_title ob @ lit ''[/cyan]'')
                                   (lit ''grey50''))) s of
             (tr, s1) \<Rightarrow>
               (case render_for (self_steps ob) 0 tr s1 of
                  (None, s2) \<Rightarrow> (Inr tr, s2)
                | (Some x, s2) \<Rightarrow> (Inl x, s2)))
      | _ \<Rightarrow> (Inl (OtherException (lit ''AttributeError'')), s))"

text \<open>
  The tracker that the objects at an address make up: its title, the steps that its list
  refers to, in order, and its callback; \<open>None\<close> when the objects are not those of a tracker.
\<close>

fun steps_at :: "'w store \<Rightarrow> addr list \<Rightarrow> step list option" where
  "steps_at s [] = Some []"
| "steps_at s (a # as) =
     (case cell s a of
        Some (DictObj st) \<Rightarrow> map_option ((#) st) (steps_at s as)
      | _ \<Rightarrow> None)"

definition tracker_at :: "'w store \<Rightarrow> addr \<Rightarrow> 'w tracker option" where
  "tracker_at s self =
     (case cell s self of
        Some (TrackerObj ob) \<Rightarrow>
          (case cell s (self_steps ob) of
             Some (ListObj as) \<Rightarrow>
               map_option
                 (\<lambda>ss. \<lparr> title = self_title ob, steps = ss,
                         status_order = self_status_order ob,
                         refresh_cb = self_refresh_cb ob \<rparr>)
                 (steps_at s as)
           | _ \<Rightarrow> None)
      | _ \<Rightarrow> None)"

text \<open>
  A caller drives the tracker by a sequence of calls. A propagating exception leaves the
  tracker as the call made it, so a caller that catches it goes on from that state.
\<close>

datatype 'w call =
    Add pystr pystr
  | Start pystr pystr
  | Complete pystr pystr
  | Error pystr pystr
  | Skip pystr pystr
  | AttachRefresh "'w callback option"
  | Render

fun do_call :: "'w call \<Rightarrow> 'w tracker \<Rightarrow> 'w \<Rightarrow> 'w outcome" where
  "do_call (Add k l) t w = add k l t w"
| "do_call (Start k d) t w = start k d t w"
| "do_call (Complete k d) t w = complete k d t w"
| "do_call (Error k d) t w = error k d t w"
| "do_call (Skip k d) t w = skip k d t w"
| "do_call (AttachRefresh cb) t w = (None, attach_refresh cb t, w)"
| "do_call Render t w = (None, snd (render t), w)"

fun run :: "'w call list \<Rightarrow> 'w tracker \<Rightarrow> 'w \<Rightarrow> 'w tracker \<times> 'w" where
  "run [] t w = (t, w)"
| "run (c # cs) t w = (case do_call c t w of (e, t', w') \<Rightarrow> run cs t' w')"

text \<open>Two callbacks to run the tracker with: one counts its calls, one raises.\<close>

definition counting_cb :: "nat callback" where
  "counting_cb v w = (None, Suc w)"

definition raising_cb :: "py_exception \<Rightarrow> nat callback" where
  "raising_cb e v w = (Some e, Suc w)"

section \<open>What the interpreter and the platform provide\<close>

text \<open>
  Some things that the functions below use are fixed by the interpreter and the machine
  and not by the source: the Unicode database (which code points beyond ASCII are decimal
  digits, and their values), the limit on the number of digits that \<open>int\<close> converts
  (\<open>sys.get_int_max_str_digits()\<close>, 0 for no limit), the instants that the C library's
  \<open>gmtime\<close> converts, whether \<open>strftime\<close> pads the year of \<open>%Y\<close> to four digits, and the
  local time zone (for an instant in epoch seconds, its offset from UTC in seconds and its
  name). They are parameters.
\<close>

record platform =
  todecimal :: "nat \<Rightarrow> nat option"
  int_max_str_digits :: nat
  gmtime_ok :: "int \<Rightarrow> bool"
  year_padded :: bool
  local_tz :: "int \<Rightarrow> int \<times> pystr"

text \<open>
  A platform to run the definitions on: ASCII digits only, the default limit, the
  \<open>gmtime\<close> of glibc with a 64-bit \<open>time_t\<close> (years that fit a C \<open>int\<close> counted from 1900), no
  padding of the year, UTC.
\<close>

definition utc_platform :: platform where
  "utc_platform =
     \<lparr> todecimal = (\<lambda>c. None), int_max_str_digits = 4300,
       gmtime_ok = (\<lambda>e. - 67768040609740800 \<le> e \<and> e \<le> 67768036191676799),
       year_padded = False,
       local_tz = (\<lambda>e. (0, lit ''UTC'')) \<rparr>"

text \<open>
  \<open>int(s)\<close> for a string \<open>s\<close>, base 10. Whitespace around the number is skipped: the
  ASCII whitespace of C, and every whitespace code point from 127 on; a sign may follow;
  then digits, with single underscores between digits only; \<open>None\<close> stands for the
  \<open>ValueError\<close>.
\<close>

definition int_space :: "nat \<Rightarrow> bool" where
  "int_space c = ((9 \<le> c \<and> c \<le> 13) \<or> c = 32 \<or> (127 \<le> c \<and> py_isspace c))"

definition digit_of :: "platform \<Rightarrow> nat \<Rightarrow> nat option" where
  "digit_of P c =
     (if c < 127 then (if 48 \<le> c \<and> c \<le> 57 then Some (c - 48) else None)
      else if py_isspace c then None
      else todecimal P c)"

text \<open>
  The scan over digits and underscores: the flag tells whether the previous character was
  an underscore; the result is the value, the number of digits, the flag and the rest,
  or \<open>None\<close> for two underscores in a row.
\<close>

fun scan_digits ::
  "platform \<Rightarrow> bool \<Rightarrow> nat \<Rightarrow> nat \<Rightarrow> pystr \<Rightarrow> (nat \<times> nat \<times> bool \<times> pystr) option" where
  "scan_digits P prev acc n [] = Some (acc, n, prev, [])"
| "scan_digits P prev acc n (c # cs) =
     (if c = 95 then (if prev then None else scan_digits P True acc n cs)
      else (case digit_of P c of
              Some d \<Rightarrow> scan_digits P False (10 * acc + d) (Suc n) cs
            | None \<Rightarrow> Some (acc, n, prev, c # cs)))"

definition py_int :: "platform \<Rightarrow> pystr \<Rightarrow> int option" where
  "py_int P s =
     (let s1 = dropWhile int_space s;
          neg = (s1 \<noteq> [] \<and> hd s1 = 45);
          s2 = (if s1 \<noteq> [] \<and> (hd s1 = 43 \<or> hd s1 = 45) then tl s1 else s1)
      in if s2 \<noteq> [] \<and> hd s2 = 95 then None
         else (case scan_digits P False 0 0 s2 of
                 None \<Rightarrow> None
               | Some (v, n, prev, rest) \<Rightarrow>
                   if prev \<or> n = 0 then None
                   else if 640 < n \<and> 0 < int_max_str_digits P \<and> int_max_str_digits P < n
                     then None
                   else if dropWhile int_space rest \<noteq> [] then None
                   else Some (if neg then - int v else int v)))"

text \<open>\<open>str(n)\<close> for an \<open>int\<close>, as an f-string formats it.\<close>

function show_nat :: "nat \<Rightarrow> pystr" where
  "show_nat n = (if n < 10 then [48 + n] else show_nat (n div 10) @ [48 + n mod 10])"
  by pat_completeness auto
termination
  by (relation "measure (\<lambda>n. n)") auto

declare show_nat.simps [simp del]

definition show_int :: "int \<Rightarrow> pystr" where
  "show_int i = (if i < 0 then 45 # show_nat (nat (- i)) else show_nat (nat i))"

text \<open>
  An aware \<open>datetime\<close>: the instant in epoch seconds, and the offset and name of its time
  zone. \<open>datetime\<close> holds the years 1 to 9999 only.
\<close>

record datetime =
  ts :: int
  utcoffset :: int
  tzname :: pystr

definition datetime_min :: int where
  "datetime_min = - 62135596800"

definition datetime_max :: int where
  "datetime_max = 253402300799"

text \<open>
  \<open>datetime.fromtimestamp(e, tz=timezone.utc)\<close> raises outside the range of \<open>datetime\<close>:
  \<open>OverflowError\<close> when the value does not fit the 64-bit \<open>time_t\<close>, \<open>OSError\<close> when
  \<open>gmtime\<close> fails on it, and \<open>ValueError\<close> when \<open>gmtime\<close> gives a year outside 1 to 9999.
\<close>

definition fromtimestamp_utc :: "platform \<Rightarrow> int \<Rightarrow> py_exception + datetime" where
  "fromtimestamp_utc P e =
     (if e < - (2 ^ 63) \<or> 2 ^ 63 \<le> e then Inl OverflowError
      else if \<not> gmtime_ok P e then Inl OSError
      else if e < datetime_min \<or> datetime_max < e then Inl ValueError
      else Inr \<lparr> ts = e, utcoffset = 0, tzname = lit ''UTC'' \<rparr>)"

text \<open>
  \<open>d.astimezone()\<close>: the same instant in the local zone; it raises when the local wall
  clock leaves the range of \<open>datetime\<close>.
\<close>

definition astimezone :: "platform \<Rightarrow> datetime \<Rightarrow> py_exception + datetime" where
  "astimezone P d =
     (case local_tz P (ts d) of (off, name) \<Rightarrow>
        if ts d + off < datetime_min \<or> datetime_max < ts d + off then Inl OverflowError
        else Inr \<lparr> ts = ts d, utcoffset = off, tzname = name \<rparr>)"

text \<open>The civil date (year, month, day) of a day number counted from 1970-01-01.\<close>

definition civil_from_days :: "int \<Rightarrow> int \<times> int \<times> int" where
  "civil_from_days z0 =
     (let z = z0 + 719468;
          era = z div 146097;
          doe = z - era * 146097;
          yoe = (doe - doe div 1460 + doe div 36524 - doe div 146096) div 365;
          y = yoe + era * 400;
          doy = doe - (365 * yoe + yoe div 4 - yoe div 100);
          mp = (5 * doy + 2) div 153;
          d = doy - (153 * mp + 2) div 5 + 1;
          m = (if mp < 10 then mp + 3 else mp - 9)
      in (if m \<le> 2 then y + 1 else y, m, d))"

text \<open>A non-negative number in at least \<open>w\<close> digits, zero-padded.\<close>

definition zpad :: "nat \<Rightarrow> int \<Rightarrow> pystr" where
  "zpad w i = (let s = show_nat (nat i) in replicate (w - length s) 48 @ s)"

text \<open>
  \<open>d.strftime("%Y-%m-%d %H:%M:%S %Z")\<close>, on the wall clock of the zone of \<open>d\<close>. The year
  is between 1 and 9999; below 1000 it has four digits only where the platform pads it.
\<close>

definition strftime :: "platform \<Rightarrow> datetime \<Rightarrow> pystr" where
  "strftime P d =
     (let l = ts d + utcoffset d;
          sod = l mod 86400
      in case civil_from_days (l div 86400) of (y, m, dd) \<Rightarrow>
           (if year_padded P then zpad 4 y else show_nat (nat y)) @ lit ''-'' @ zpad 2 m @ lit ''-'' @ zpad 2 dd @ lit '' '' @
           zpad 2 (sod div 3600) @ lit '':'' @ zpad 2 (sod mod 3600 div 60) @ lit '':'' @
           zpad 2 (sod mod 60) @ lit '' '' @ tzname d)"

section \<open>Authorization header\<close>

text \<open>
  The environment is what \<open>os.getenv\<close> reads: a partial map from names to values.
  \<open>py_or\<close> is \<open>a or b\<close> on values that are \<open>None\<close> or a string: \<open>a\<close> when \<open>a\<close> is truthy,
  otherwise \<open>b\<close>, whatever \<open>b\<close> is.
\<close>

type_synonym environ = "pystr \<Rightarrow> pystr option"

definition py_or :: "pystr option \<Rightarrow> pystr option \<Rightarrow> pystr option" where
  "py_or a b = (case a of Some s \<Rightarrow> if truthy s then Some s else b | None \<Rightarrow> b)"

text \<open>The chain ends in \<open>or ""\<close>, so its value is a string, which is stripped.\<close>

definition github_token :: "environ \<Rightarrow> pystr option \<Rightarrow> pystr option" where
  "github_token env cli_token =
     (let chain = py_or (py_or (py_or cli_token (env (lit ''GH_TOKEN'')))
                     (env (lit ''GITHUB_TOKEN''))) (Some []);
          stripped = strip (case chain of Some s \<Rightarrow> s | None \<Rightarrow> [])
      in if truthy stripped then Some stripped else None)"

text \<open>The dict returned has one entry or none; it is the list of its items.\<close>

definition github_auth_headers :: "environ \<Rightarrow> pystr option \<Rightarrow> (pystr \<times> pystr) list" where
  "github_auth_headers env cli_token =
     (case github_token env cli_token of
        Some token \<Rightarrow> [(lit ''Authorization'', lit ''Bearer '' @ token)]
      | None \<Rightarrow> [])"

section \<open>Rate-limit headers\<close>

text \<open>
  \<open>httpx.Headers\<close> keeps the header lines in order, compares names without regard to
  ASCII case, and joins the values of a repeated name with a comma and a space.
\<close>

type_synonym headers = "(pystr \<times> pystr) list"

definition ascii_lower :: "pystr \<Rightarrow> pystr" where
  "ascii_lower s = map (\<lambda>c. if 65 \<le> c \<and> c \<le> 90 then c + 32 else c) s"

definition values_of :: "headers \<Rightarrow> pystr \<Rightarrow> pystr list" where
  "values_of hs k = map snd (filter (\<lambda>h. ascii_lower (fst h) = ascii_lower k) hs)"

text \<open>\<open>key in headers\<close>.\<close>

definition has_header :: "headers \<Rightarrow> pystr \<Rightarrow> bool" where
  "has_header hs k = (values_of hs k \<noteq> [])"

text \<open>\<open>headers.get(key, default)\<close>.\<close>

definition get_header :: "headers \<Rightarrow> pystr \<Rightarrow> pystr option \<Rightarrow> pystr option" where
  "get_header hs k dflt =
     (if values_of hs k = [] then dflt else Some (join (lit '', '') (values_of hs k)))"

text \<open>
  The dict \<open>info\<close>: each key is present or not. \<open>limit\<close> and \<open>remaining\<close> hold the header
  strings as they came.
\<close>

record rate_info =
  limit :: "pystr option"
  remaining :: "pystr option"
  reset_epoch :: "int option"
  reset_time :: "datetime option"
  reset_local :: "datetime option"
  retry_after_seconds :: "int option"
  retry_after :: "pystr option"

definition empty_info :: rate_info where
  "empty_info =
     \<lparr> limit = None, remaining = None, reset_epoch = None, reset_time = None,
       reset_local = None, retry_after_seconds = None, retry_after = None \<rparr>"

text \<open>
  The block under \<open>if "X-RateLimit-Reset" in headers\<close>. Nothing catches what \<open>int\<close>,
  \<open>fromtimestamp\<close> or \<open>astimezone\<close> raise here.
\<close>

definition parse_reset :: "platform \<Rightarrow> headers \<Rightarrow> rate_info \<Rightarrow> py_exception + rate_info" where
  "parse_reset P hs info =
     (case get_header hs (lit ''X-RateLimit-Reset'') (Some (lit ''0'')) of
        None \<Rightarrow> Inl (OtherException (lit ''TypeError''))
      | Some v \<Rightarrow>
          (case py_int P v of
             None \<Rightarrow> Inl ValueError
           | Some e \<Rightarrow>
               if e \<noteq> 0 then
                 (case fromtimestamp_utc P e of
                    Inl x \<Rightarrow> Inl x
                  | Inr t \<Rightarrow>
                      (case astimezone P t of
                         Inl x \<Rightarrow> Inl x
                       | Inr l \<Rightarrow>
                           Inr (info\<lparr> reset_epoch := Some e, reset_time := Some t,
                                      reset_local := Some l \<rparr>)))
               else Inr info))"

text \<open>
  The block under \<open>if "Retry-After" in headers\<close>: the \<open>ValueError\<close> of \<open>int\<close> is caught
  and the raw string kept.
\<close>

definition parse_retry :: "platform \<Rightarrow> headers \<Rightarrow> rate_info \<Rightarrow> py_exception + rate_info" where
  "parse_retry P hs info =
     (case get_header hs (lit ''Retry-After'') None of
        None \<Rightarrow> Inl (OtherException (lit ''TypeError''))
      | Some v \<Rightarrow>
          (case py_int P v of
             Some n \<Rightarrow> Inr (info\<lparr> retry_after_seconds := Some n \<rparr>)
           | None \<Rightarrow> Inr (info\<lparr> retry_after := Some v \<rparr>)))"

definition parse_rate_limit_headers :: "platform \<Rightarrow> headers \<Rightarrow> py_exception + rate_info" where
  "parse_rate_limit_headers P hs =
     (let info0 = empty_info;
          info1 = (if has_header hs (lit ''X-RateLimit-Limit'')
                   then info0\<lparr> limit := get_header hs (lit ''X-RateLimit-Limit'') None \<rparr>
                   else info0);
          info2 = (if has_header hs (lit ''X-RateLimit-Remaining'')
                   then info1\<lparr> remaining := get_header hs (lit ''X-RateLimit-Remaining'') None \<rparr>
                   else info1)
      in case (if has_header hs (lit ''X-RateLimit-Reset'') then parse_reset P hs info2
               else Inr info2) of
           Inl x \<Rightarrow> Inl x
         | Inr info3 \<Rightarrow>
             (if has_header hs (lit ''Retry-After'') then parse_retry P hs info3
              else Inr info3))"

text \<open>\<open>if rate_info\<close>: a dict is truthy when it has a key.\<close>

definition info_truthy :: "rate_info \<Rightarrow> bool" where
  "info_truthy i =
     (limit i \<noteq> None \<or> remaining i \<noteq> None \<or> reset_epoch i \<noteq> None \<or> reset_time i \<noteq> None \<or>
      reset_local i \<noteq> None \<or> retry_after_seconds i \<noteq> None \<or> retry_after i \<noteq> None)"

text \<open>U+2022 is the bullet of the list lines.\<close>

definition bullet :: pystr where
  "bullet = lit ''  '' @ [8226] @ lit '' ''"

definition rate_lines :: "platform \<Rightarrow> rate_info \<Rightarrow> pystr list" where
  "rate_lines P i =
     (if info_truthy i then
        [lit ''[bold]Rate Limit Information:[/bold]''] @
        (case limit i of
           Some l \<Rightarrow> [bullet @ lit ''Rate Limit: '' @ l @ lit '' requests/hour'']
         | None \<Rightarrow> []) @
        (case remaining i of
           Some r \<Rightarrow> [bullet @ lit ''Remaining: '' @ r]
         | None \<Rightarrow> []) @
        (case reset_local i of
           Some d \<Rightarrow> [bullet @ lit ''Resets at: '' @ strftime P d]
         | None \<Rightarrow> []) @
        (case retry_after_seconds i of
           Some n \<Rightarrow> [bullet @ lit ''Retry after: '' @ show_int n @ lit '' seconds'']
         | None \<Rightarrow> []) @
        [[]]
      else [])"

definition tips :: "pystr list" where
  "tips =
     [lit ''[bold]Troubleshooting Tips:[/bold]'',
      bullet @ lit ''If you're on a shared CI or corporate environment, you may be rate-limited.'',
      bullet @ lit ''Consider using a GitHub token via --github-token or the GH_TOKEN/GITHUB_TOKEN environment variable.'',
      bullet @ lit ''Authenticated requests have a limit of 5,000/hour vs 60/hour for unauthenticated.'']"

definition format_rate_limit_error ::
  "platform \<Rightarrow> int \<Rightarrow> headers \<Rightarrow> pystr \<Rightarrow> py_exception + pystr" where
  "format_rate_limit_error P status_code hs url =
     (case parse_rate_limit_headers P hs of
        Inl x \<Rightarrow> Inl x
      | Inr rate_info \<Rightarrow>
          Inr (join [10]
                 ([lit ''GitHub API returned status '' @ show_int status_code @ lit '' for '' @ url,
                   []] @ rate_lines P rate_info @ tips)))"

text \<open>
  The resolution as the specification words it, to compare the code with: the explicit
  argument, then \<open>GH_TOKEN\<close>, then \<open>GITHUB_TOKEN\<close>, then none, where a source counts when it
  is set and not empty.
\<close>

definition is_set :: "pystr option \<Rightarrow> bool" where
  "is_set x = (case x of Some s \<Rightarrow> s \<noteq> [] | None \<Rightarrow> False)"

definition spec_resolve_token :: "environ \<Rightarrow> pystr option \<Rightarrow> pystr option" where
  "spec_resolve_token env cli_token =
     (if is_set cli_token then cli_token
      else if is_set (env (lit ''GH_TOKEN'')) then env (lit ''GH_TOKEN'')
      else if is_set (env (lit ''GITHUB_TOKEN'')) then env (lit ''GITHUB_TOKEN'')
      else None)"

text \<open>
  The headers as the specification words them: \<open>Authorization: Bearer\<close> with the resolved
  token exactly when one is resolved.
\<close>

definition spec_auth_headers :: "environ \<Rightarrow> pystr option \<Rightarrow> (pystr \<times> pystr) list" where
  "spec_auth_headers env cli_token =
     (case spec_resolve_token env cli_token of
        Some token \<Rightarrow> [(lit ''Authorization'', lit ''Bearer '' @ token)]
      | None \<Rightarrow> [])"

text \<open>An environment with the given variables and no others.\<close>

fun environ_of :: "(pystr \<times> pystr) list \<Rightarrow> environ" where
  "environ_of [] k = None"
| "environ_of ((n, v) # rest) k = (if k = n then Some v else environ_of rest k)"

section \<open>Properties of the step tracker\<close>

lemma update_loop_keys:
  "update_loop k st d ss = Some ss' \<Longrightarrow> map key ss' = map key ss"
  by (induction ss arbitrary: ss') (auto split: if_splits)

lemma update_loop_None: "update_loop k st d ss = None \<longleftrightarrow> k \<notin> set (map key ss)"
  by (induction ss) auto

lemma steps_add:
  "steps (fst (snd (add k l t w))) =
     (if k \<in> set (map key (steps t)) then steps t
      else steps t @ [\<lparr> key = k, label = l, status = lit ''pending'', detail = [] \<rparr>])"
  by (simp add: add_def Let_def split: prod.splits)

lemma steps_update:
  "steps (fst (snd (update k st d t w))) =
     (case update_loop k st d (steps t) of
        Some ss \<Rightarrow> ss
      | None \<Rightarrow> steps t @ [\<lparr> key = k, label = k, status = st, detail = d \<rparr>])"
  by (simp add: update_def Let_def split: prod.splits option.splits)

lemma distinct_update:
  assumes "distinct (map key (steps t))"
  shows "distinct (map key (steps (fst (snd (update k st d t w)))))"
proof (cases "update_loop k st d (steps t)")
  case None
  then have "k \<notin> set (map key (steps t))" by (simp add: update_loop_None)
  with assms None show ?thesis by (simp add: steps_update)
next
  case (Some ss)
  then have "map key ss = map key (steps t)" by (rule update_loop_keys)
  with assms Some show ?thesis by (simp add: steps_update)
qed

lemma distinct_add:
  "distinct (map key (steps t)) \<Longrightarrow> distinct (map key (steps (fst (snd (add k l t w)))))"
  by (simp add: steps_add)

lemma steps_render: "snd (render t) = t"
  by (simp add: render_def)

lemma distinct_do_call:
  "distinct (map key (steps t)) \<Longrightarrow> distinct (map key (steps (fst (snd (do_call c t w)))))"
  by (cases c)
     (simp_all add: distinct_add distinct_update start_def complete_def error_def skip_def
        attach_refresh_def steps_render)

lemma distinct_run:
  "distinct (map key (steps t)) \<Longrightarrow> distinct (map key (steps (fst (run cs t w))))"
proof (induction cs arbitrary: t w)
  case Nil
  then show ?case by simp
next
  case (Cons c cs)
  obtain e t' w' where r: "do_call c t w = (e, t', w')" by (cases "do_call c t w")
  from Cons.prems have "distinct (map key (steps (fst (snd (do_call c t w)))))"
    by (rule distinct_do_call)
  with r have "distinct (map key (steps t'))" by simp
  then have "distinct (map key (steps (fst (run cs t' w'))))" by (rule Cons.IH)
  with r show ?case by simp
qed

lemma count_distinct:
  "distinct (map f xs) \<Longrightarrow> x \<in> set xs \<Longrightarrow> length (filter (\<lambda>s. f s = f x) xs) = 1"
proof (induction xs)
  case Nil
  then show ?case by simp
next
  case (Cons a xs)
  show ?case
  proof (cases "f a = f x")
    case True
    with Cons.prems have "\<forall>s \<in> set xs. f s \<noteq> f x" by (auto simp: image_iff)
    then have "filter (\<lambda>s. f s = f x) xs = []" by (simp add: filter_empty_conv)
    with True show ?thesis by simp
  next
    case False
    with Cons show ?thesis by auto
  qed
qed

lemma render_loop_children:
  "children (render_loop ss tr) = children tr @ map render_line ss"
  by (induction ss arbitrary: tr) (simp_all add: tree_add_def)

lemma render_children: "children (fst (render t)) = map render_line (steps t)"
  by (simp add: render_def render_loop_children Tree_def)


lemma count_after_add:
  assumes "distinct (map key (steps t))"
  shows "length (filter (\<lambda>s. key s = k) (steps (fst (snd (add k l t w))))) = 1"
proof (cases "k \<in> set (map key (steps t))")
  case True
  then obtain x where x: "x \<in> set (steps t)" "key x = k" by auto
  from count_distinct [OF assms x(1)] x(2) True show ?thesis by (simp add: steps_add)
next
  case False
  then have "filter (\<lambda>s. key s = k) (steps t) = []" by (auto simp: filter_empty_conv)
  with False show ?thesis by (simp add: steps_add)
qed

text \<open>
  Claim C3. In every tracker state reached from a new tracker by any sequence of calls,
  no two steps have the same key. On such a state, \<open>add\<close> with a key that is already
  registered returns the tracker as it was: the steps, their order and their statuses stay,
  and so does the rendered tree. After any \<open>add\<close> the key has exactly one step, and the
  rendered tree has one line per step.
\<close>

theorem tracker_keys_unique:
  assumes "t = fst (run cs (StepTracker_init ti) w0)"
  shows "distinct (map key (steps t)) \<and>
         (k \<in> set (map key (steps t)) \<longrightarrow>
            add k l t w = (None, t, w) \<and>
            fst (render (fst (snd (add k l t w)))) = fst (render t)) \<and>
         length (filter (\<lambda>s. key s = k) (steps (fst (snd (add k l t w))))) = 1 \<and>
         children (fst (render (fst (snd (add k l t w))))) =
           map render_line (steps (fst (snd (add k l t w))))"
proof -
  have "distinct (map key (steps (StepTracker_init ti :: 'a tracker)))"
    by (simp add: StepTracker_init_def)
  then have d: "distinct (map key (steps t))"
    unfolding assms by (rule distinct_run)
  have n: "k \<in> set (map key (steps t)) \<longrightarrow> add k l t w = (None, t, w)"
    by (simp add: add_def)
  from d have c: "length (filter (\<lambda>s. key s = k) (steps (fst (snd (add k l t w))))) = 1"
    by (rule count_after_add)
  from d n c show ?thesis by (simp add: render_children)
qed

theorem tracker_keys_unique_witness:
  "lit ''fetch'' \<in> set (map key (steps (fst (run [Add (lit ''fetch'') (lit ''Fetch''),
        Start (lit ''fetch'') (lit ''now'')] (StepTracker_init (lit ''T'')) (0::nat))))) \<and>
   steps (fst (snd (add (lit ''fetch'') (lit ''again'')
     (fst (run [Add (lit ''fetch'') (lit ''Fetch''), Start (lit ''fetch'') (lit ''now'')]
        (StepTracker_init (lit ''T'')) (0::nat))) 0))) =
     [\<lparr> key = lit ''fetch'', label = lit ''Fetch'', status = lit ''running'',
        detail = lit ''now'' \<rparr>]"
  using tracker_keys_unique [where cs = "[Add (lit ''fetch'') (lit ''Fetch''), Start (lit ''fetch'') (lit ''now'')]"
      and ti = "lit ''T''" and ?w0.0 = "0::nat" and k = "lit ''fetch''" and l = "lit ''again''"
      and w = 0
      and t = "fst (run [Add (lit ''fetch'') (lit ''Fetch''), Start (lit ''fetch'') (lit ''now'')]
        (StepTracker_init (lit ''T'')) (0::nat))"]
  by (simp add: add_def start_def update_def maybe_refresh_def StepTracker_init_def lit_def
      truthy_def)

lemma fst_update:
  "fst (update k st d t w) =
     fst (maybe_refresh (fst (snd (update k st d t w))) w)"
  by (simp add: update_def Let_def split: option.splits prod.splits)

lemma snd_update:
  "snd (snd (update k st d t w)) =
     snd (maybe_refresh (fst (snd (update k st d t w))) w)"
  by (simp add: update_def Let_def split: option.splits prod.splits)

lemma update_unknown:
  assumes "k \<notin> set (map key (steps t))"
  shows "fst (snd (update k st d t w)) =
           t\<lparr> steps := steps t @ [\<lparr> key = k, label = k, status = st, detail = d \<rparr>] \<rparr>"
proof -
  from assms have "update_loop k st d (steps t) = None" by (simp add: update_loop_None)
  then show ?thesis by (simp add: update_def Let_def split: prod.splits)
qed

lemma propagated_not_Exception:
  "fst (maybe_refresh t w) = Some e \<Longrightarrow> \<not> isinstance_Exception e"
  by (auto simp: maybe_refresh_def split: option.splits prod.splits if_splits)

lemma maybe_refresh_no_cb: "refresh_cb t = None \<Longrightarrow> maybe_refresh t w = (None, w)"
  by (simp add: maybe_refresh_def)

lemma strip_Nil: "strip [] = []"
  by (simp add: strip_def)

lemma render_line_not_pending:
  assumes "st \<noteq> lit ''pending''"
  shows "render_line \<lparr> key = k, label = l, status = st, detail = d \<rparr> =
           symbol st @ lit '' [white]'' @ l @ lit ''[/white]'' @
           (if strip d = [] then []
            else lit '' [bright_black]('' @ strip d @ lit '')[/bright_black]'')"
  using assms by (simp add: render_line_def Let_def truthy_def strip_Nil) (simp add: lit_def)

lemma symbols:
  "symbol (lit ''running'') = lit ''[cyan]'' @ [9675] @ lit ''[/cyan]''"
  "symbol (lit ''done'') = lit ''[green]'' @ [9679] @ lit ''[/green]''"
  "symbol (lit ''error'') = lit ''[red]'' @ [9679] @ lit ''[/red]''"
  "symbol (lit ''skipped'') = lit ''[yellow]'' @ [9675] @ lit ''[/yellow]''"
  "symbol (lit ''pending'') = lit ''[green dim]'' @ [9675] @ lit ''[/green dim]''"
  by (simp_all add: symbol_def lit_def)

lemma not_pending:
  "lit ''running'' \<noteq> lit ''pending''" "lit ''done'' \<noteq> lit ''pending''"
  "lit ''error'' \<noteq> lit ''pending''" "lit ''skipped'' \<noteq> lit ''pending''"
  by (simp_all add: lit_def)

lemma symbols_distinct:
  "distinct (map symbol [lit ''pending'', lit ''running'', lit ''done'', lit ''error'',
     lit ''skipped''])"
  by (simp add: symbols) (simp add: lit_def)

lemma update_unknown_full:
  assumes "k \<notin> set (map key (steps t))"
  shows "update k st d t w =
           (fst (maybe_refresh
                  (t\<lparr> steps := steps t @ [\<lparr> key = k, label = k, status = st, detail = d \<rparr>] \<rparr>) w),
            t\<lparr> steps := steps t @ [\<lparr> key = k, label = k, status = st, detail = d \<rparr>] \<rparr>,
            snd (maybe_refresh
                  (t\<lparr> steps := steps t @ [\<lparr> key = k, label = k, status = st, detail = d \<rparr>] \<rparr>) w))"
proof -
  from assms have "update_loop k st d (steps t) = None" by (simp add: update_loop_None)
  then show ?thesis by (simp add: update_def Let_def split: prod.splits)
qed

text \<open>
  Claim C4. When the key is not registered, each of \<open>start\<close>, \<open>complete\<close>, \<open>error\<close> and
  \<open>skip\<close> appends a step whose label is the key and whose status is the requested one, and
  changes nothing else in the tracker. The rendered tree gains one line, the last: the
  symbol of the requested status (a cyan empty circle for running, a green filled one for
  done, a red filled one for error, a yellow empty one for skipped), the key in white, and
  the stripped detail in brackets when it is not empty. The symbols of the five statuses
  differ from one another, so the line tells the status. The lookup itself raises nothing:
  what leaves the call is what leaves the refresh of the new state, so nothing at all
  without a callback, and never an \<open>Exception\<close>.
\<close>

theorem unknown_key_created:
  assumes "k \<notin> set (map key (steps t))"
    and "(f, st, mark) \<in>
           {(start, lit ''running'', lit ''[cyan]'' @ [9675] @ lit ''[/cyan]''),
            (complete, lit ''done'', lit ''[green]'' @ [9679] @ lit ''[/green]''),
            (error, lit ''error'', lit ''[red]'' @ [9679] @ lit ''[/red]''),
            (skip, lit ''skipped'', lit ''[yellow]'' @ [9675] @ lit ''[/yellow]'')}"
  shows "(case f k d t w of (e, t', w') \<Rightarrow>
           t' = t\<lparr> steps := steps t @ [\<lparr> key = k, label = k, status = st, detail = d \<rparr>] \<rparr> \<and>
           children (fst (render t')) = children (fst (render t)) @
             [mark @ lit '' [white]'' @ k @ lit ''[/white]'' @
              (if strip d = [] then []
               else lit '' [bright_black]('' @ strip d @ lit '')[/bright_black]'')] \<and>
           (e, w') = maybe_refresh t' w \<and>
           (refresh_cb t = None \<longrightarrow> e = None) \<and>
           (\<forall>x. e = Some x \<longrightarrow> \<not> isinstance_Exception x)) \<and>
         distinct (map symbol [lit ''pending'', lit ''running'', lit ''done'', lit ''error'',
           lit ''skipped''])"
proof -
  define s where "s = \<lparr> key = k, label = k, status = st, detail = d \<rparr>"
  define t1 where "t1 = t\<lparr> steps := steps t @ [s] \<rparr>"
  from assms(2) have f: "f k d t w = update k st d t w" and sy: "symbol st = mark"
    and np: "st \<noteq> lit ''pending''"
    by (auto simp: start_def complete_def error_def skip_def symbols not_pending
        not_pending [symmetric])
  have u: "update k st d t w = (fst (maybe_refresh t1 w), t1, snd (maybe_refresh t1 w))"
    unfolding t1_def s_def by (rule update_unknown_full [OF assms(1)])
  have c: "children (fst (render t1)) = children (fst (render t)) @
             [mark @ lit '' [white]'' @ k @ lit ''[/white]'' @
              (if strip d = [] then []
               else lit '' [bright_black]('' @ strip d @ lit '')[/bright_black]'')]"
    using render_line_not_pending [OF np, of k k d]
    by (simp add: render_children t1_def s_def sy)
  have n: "refresh_cb t = None \<longrightarrow> fst (maybe_refresh t1 w) = None"
    by (simp add: maybe_refresh_def t1_def)
  have p: "\<forall>x. fst (maybe_refresh t1 w) = Some x \<longrightarrow> \<not> isinstance_Exception x"
    using propagated_not_Exception [of t1 w] by blast
  from c n p have "case f k d t w of (e, t', w') \<Rightarrow>
           t' = t1 \<and>
           children (fst (render t')) = children (fst (render t)) @
             [mark @ lit '' [white]'' @ k @ lit ''[/white]'' @
              (if strip d = [] then []
               else lit '' [bright_black]('' @ strip d @ lit '')[/bright_black]'')] \<and>
           (e, w') = maybe_refresh t' w \<and>
           (refresh_cb t = None \<longrightarrow> e = None) \<and>
           (\<forall>x. e = Some x \<longrightarrow> \<not> isinstance_Exception x)"
    unfolding f u prod.case by simp
  with symbols_distinct show ?thesis unfolding t1_def s_def by blast
qed

theorem unknown_key_created_witness:
  "lit ''x'' \<notin> set (map key (steps (fst (snd (add (lit ''a'') (lit ''A'')
      (attach_refresh (Some counting_cb) (StepTracker_init (lit ''T''))) 0))))) \<and>
   (error, lit ''error'', lit ''[red]'' @ [9679] @ lit ''[/red]'') \<in>
      {(start, lit ''running'', lit ''[cyan]'' @ [9675] @ lit ''[/cyan]''),
       (complete, lit ''done'', lit ''[green]'' @ [9679] @ lit ''[/green]''),
       (error, lit ''error'', lit ''[red]'' @ [9679] @ lit ''[/red]''),
       (skip :: _ \<Rightarrow> _ \<Rightarrow> nat tracker \<Rightarrow> _, lit ''skipped'',
          lit ''[yellow]'' @ [9675] @ lit ''[/yellow]'')} \<and>
   fst (error (lit ''x'') (lit '' boom '') (fst (snd (add (lit ''a'') (lit ''A'')
      (attach_refresh (Some counting_cb) (StepTracker_init (lit ''T''))) 0))) 1) = None \<and>
   snd (snd (error (lit ''x'') (lit '' boom '') (fst (snd (add (lit ''a'') (lit ''A'')
      (attach_refresh (Some counting_cb) (StepTracker_init (lit ''T''))) 0))) 1)) = 2 \<and>
   children (fst (render (fst (snd (error (lit ''x'') (lit '' boom '')
      (fst (snd (add (lit ''a'') (lit ''A'')
        (attach_refresh (Some counting_cb) (StepTracker_init (lit ''T''))) 0))) 1))))) =
     [lit ''[green dim]'' @ [9675] @ lit ''[/green dim] [bright_black]A[/bright_black]'',
      lit ''[red]'' @ [9679] @ lit ''[/red] [white]x[/white] [bright_black](boom)[/bright_black]'']"
  using unknown_key_created [where k = "lit ''x''"
      and t = "fst (snd (add (lit ''a'') (lit ''A'')
        (attach_refresh (Some counting_cb) (StepTracker_init (lit ''T''))) 0))"
      and f = error and st = "lit ''error''" and mark = "lit ''[red]'' @ [9679] @ lit ''[/red]''"
      and d = "lit '' boom ''" and w = "1::nat"]
  by (simp add: StepTracker_init_def attach_refresh_def add_def error_def update_def
      maybe_refresh_def counting_cb_def render_children render_line_def symbol_def Let_def
      truthy_def strip_def py_isspace_def lit_def)

lemma steps_update_no_cb:
  "steps (fst (snd (update k st d t w))) =
   steps (fst (snd (update k st d (t\<lparr> refresh_cb := None \<rparr>) w')))"
  by (simp add: steps_update split: option.splits)

lemma steps_add_no_cb:
  "steps (fst (snd (add k l t w))) = steps (fst (snd (add k l (t\<lparr> refresh_cb := None \<rparr>) w')))"
  by (simp add: steps_add)

lemma steps_do_call_no_cb:
  "steps (fst (snd (do_call c t w))) =
   steps (fst (snd (do_call c (t\<lparr> refresh_cb := None \<rparr>) w)))"
  by (cases c)
     (simp_all add: start_def complete_def error_def skip_def attach_refresh_def render_def
        steps_update_no_cb [of _ _ _ t w w] steps_add_no_cb [of _ _ t w w])

lemma update_loop_first:
  assumes "k \<in> set (map key ss)"
  shows "\<exists>pre s post. ss = pre @ s # post \<and> key s = k \<and> k \<notin> set (map key pre) \<and>
           update_loop k st d ss =
             Some (pre @ s\<lparr> status := st, detail := (if d = [] then detail s else d) \<rparr> # post)"
  using assms
proof (induction ss)
  case Nil
  then show ?case by simp
next
  case (Cons a ss)
  show ?case
  proof (cases "key a = k")
    case True
    then have "a # ss = [] @ a # ss \<and> key a = k \<and> k \<notin> set (map key []) \<and>
        update_loop k st d (a # ss) =
          Some ([] @ a\<lparr> status := st, detail := (if d = [] then detail a else d) \<rparr> # ss)"
      by (simp add: truthy_def)
    then show ?thesis by blast
  next
    case False
    with Cons.prems have "k \<in> set (map key ss)" by auto
    from Cons.IH [OF this] obtain pre s post where
      p: "ss = pre @ s # post" "key s = k" "k \<notin> set (map key pre)"
        "update_loop k st d ss =
           Some (pre @ s\<lparr> status := st, detail := (if d = [] then detail s else d) \<rparr> # post)"
      by blast
    with False have "a # ss = (a # pre) @ s # post \<and> key s = k \<and>
        k \<notin> set (map key (a # pre)) \<and>
        update_loop k st d (a # ss) =
          Some ((a # pre) @ s\<lparr> status := st, detail := (if d = [] then detail s else d) \<rparr> # post)"
      by auto
    then show ?thesis by blast
  qed
qed

lemma maybe_refresh_raises:
  assumes "refresh_cb t = Some cb" and "cb (title t, steps t) w = (Some e, w1)"
  shows "maybe_refresh t w = (if isinstance_Exception e then None else Some e, w1)"
  using assms by (simp add: maybe_refresh_def)

lemma update_eq:
  "update k st d t w =
     (fst (maybe_refresh (fst (snd (update k st d t w))) w),
      t\<lparr> steps := (case update_loop k st d (steps t) of
                     Some ss \<Rightarrow> ss
                   | None \<Rightarrow> steps t @ [\<lparr> key = k, label = k, status = st, detail = d \<rparr>]) \<rparr>,
      snd (maybe_refresh (fst (snd (update k st d t w))) w))"
  by (simp add: update_def Let_def split: option.splits prod.splits)

lemma add_new_eq:
  assumes "k \<notin> set (map key (steps t))"
  shows "add k l t w =
     (fst (maybe_refresh (fst (snd (add k l t w))) w),
      t\<lparr> steps := steps t @ [\<lparr> key = k, label = l, status = lit ''pending'', detail = [] \<rparr>] \<rparr>,
      snd (maybe_refresh (fst (snd (add k l t w))) w))"
  using assms by (simp add: add_def Let_def split: prod.splits)

lemma do_call_refresh:
  assumes "(c, st, lb, dt) \<in>
           {(Start k d, lit ''running'', k, d), (Complete k d, lit ''done'', k, d),
            (Error k d, lit ''error'', k, d), (Skip k d, lit ''skipped'', k, d),
            (Add k l, lit ''pending'', l, [])}"
    and "c = Add k l \<longrightarrow> k \<notin> set (map key (steps t))"
  shows "do_call c t w =
           (fst (maybe_refresh (fst (snd (do_call c t w))) w), fst (snd (do_call c t w)),
            snd (maybe_refresh (fst (snd (do_call c t w))) w)) \<and>
         fst (snd (do_call c t w)) = t\<lparr> steps := steps (fst (snd (do_call c t w))) \<rparr> \<and>
         (k \<notin> set (map key (steps t)) \<longrightarrow>
            steps (fst (snd (do_call c t w))) =
              steps t @ [\<lparr> key = k, label = lb, status = st, detail = dt \<rparr>]) \<and>
         (k \<in> set (map key (steps t)) \<longrightarrow>
            (\<exists>pre s post. steps t = pre @ s # post \<and> key s = k \<and> k \<notin> set (map key pre) \<and>
               steps (fst (snd (do_call c t w))) =
                 pre @ s\<lparr> status := st, detail := (if dt = [] then detail s else dt) \<rparr> # post))"
proof -
  have u: "update k st d t w =
           (fst (maybe_refresh (fst (snd (update k st d t w))) w), fst (snd (update k st d t w)),
            snd (maybe_refresh (fst (snd (update k st d t w))) w)) \<and>
         fst (snd (update k st d t w)) = t\<lparr> steps := steps (fst (snd (update k st d t w))) \<rparr> \<and>
         (k \<notin> set (map key (steps t)) \<longrightarrow>
            steps (fst (snd (update k st d t w))) =
              steps t @ [\<lparr> key = k, label = k, status = st, detail = d \<rparr>]) \<and>
         (k \<in> set (map key (steps t)) \<longrightarrow>
            (\<exists>pre s post. steps t = pre @ s # post \<and> key s = k \<and> k \<notin> set (map key pre) \<and>
               steps (fst (snd (update k st d t w))) =
                 pre @ s\<lparr> status := st, detail := (if d = [] then detail s else d) \<rparr> # post))"
    for st
  proof (intro conjI impI)
    show "update k st d t w =
           (fst (maybe_refresh (fst (snd (update k st d t w))) w), fst (snd (update k st d t w)),
            snd (maybe_refresh (fst (snd (update k st d t w))) w))"
      using update_eq [of k st d t w] by (simp add: prod_eq_iff)
    show "fst (snd (update k st d t w)) = t\<lparr> steps := steps (fst (snd (update k st d t w))) \<rparr>"
      by (subst (1 2) update_eq) simp
    show "steps (fst (snd (update k st d t w))) =
            steps t @ [\<lparr> key = k, label = k, status = st, detail = d \<rparr>]"
      if "k \<notin> set (map key (steps t))"
      using that by (simp add: update_unknown)
    show "\<exists>pre s post. steps t = pre @ s # post \<and> key s = k \<and> k \<notin> set (map key pre) \<and>
               steps (fst (snd (update k st d t w))) =
                 pre @ s\<lparr> status := st, detail := (if d = [] then detail s else d) \<rparr> # post"
      if "k \<in> set (map key (steps t))"
    proof -
      from update_loop_first [OF that, of st d] obtain pre s post where
        p: "steps t = pre @ s # post" "key s = k" "k \<notin> set (map key pre)"
          "update_loop k st d (steps t) =
             Some (pre @ s\<lparr> status := st, detail := (if d = [] then detail s else d) \<rparr> # post)"
        by blast
      have "steps (fst (snd (update k st d t w))) =
              pre @ s\<lparr> status := st, detail := (if d = [] then detail s else d) \<rparr> # post"
        unfolding steps_update p(4) by simp
      with p(1,2,3) show ?thesis by blast
    qed
  qed
  from assms(1) consider "c = Start k d" "st = lit ''running''" "lb = k" "dt = d"
    | "c = Complete k d" "st = lit ''done''" "lb = k" "dt = d"
    | "c = Error k d" "st = lit ''error''" "lb = k" "dt = d"
    | "c = Skip k d" "st = lit ''skipped''" "lb = k" "dt = d"
    | "c = Add k l" "st = lit ''pending''" "lb = l" "dt = []"
    by auto
  then show ?thesis
  proof cases
    case 1
    show ?thesis unfolding 1 do_call.simps start_def by (rule u)
  next
    case 2
    show ?thesis unfolding 2 do_call.simps complete_def by (rule u)
  next
    case 3
    show ?thesis unfolding 3 do_call.simps error_def by (rule u)
  next
    case 4
    show ?thesis unfolding 4 do_call.simps skip_def by (rule u)
  next
    case 5
    with assms(2) have n: "k \<notin> set (map key (steps t))" by simp
    from add_new_eq [OF n, of l w] 5 n show ?thesis by (simp add: prod_eq_iff steps_add)
  qed
qed

text \<open>
  Claim C5, as amended. Take a call of \<open>start\<close>, \<open>complete\<close>, \<open>error\<close> or \<open>skip\<close>, or of
  \<open>add\<close> with a key that is not registered, on a tracker with a callback attached, and let
  the callback, run on the state that the call has made, raise \<open>e\<close>. If \<open>e\<close> is an
  \<open>Exception\<close> the call returns normally; otherwise, as for \<open>KeyboardInterrupt\<close>,
  \<open>SystemExit\<close> and \<open>GeneratorExit\<close>, the call raises \<open>e\<close>. In both cases the world is
  as the callback left it and the mutation is applied: only the steps of the tracker
  change; for a key that is not registered one step is appended, with the status of the
  call; for a registered key the first step with that key gets the status, and the detail
  when the detail given is not empty, and the other steps stay; and the steps are those
  that the same call produces with no callback attached.
\<close>

theorem callback_exceptions_by_class:
  assumes "refresh_cb t = Some cb"
    and "(c, st, lb, dt) \<in>
           {(Start k d, lit ''running'', k, d), (Complete k d, lit ''done'', k, d),
            (Error k d, lit ''error'', k, d), (Skip k d, lit ''skipped'', k, d),
            (Add k l, lit ''pending'', l, [])}"
    and "c = Add k l \<longrightarrow> k \<notin> set (map key (steps t))"
    and "cb (title t, steps (fst (snd (do_call c t w)))) w = (Some e, w1)"
  shows "case do_call c t w of (x, t', w') \<Rightarrow>
           x = (if isinstance_Exception e then None else Some e) \<and>
           (e \<in> {KeyboardInterrupt, SystemExit, GeneratorExit} \<longrightarrow> x = Some e) \<and>
           (e \<in> {ValueError, OverflowError, OSError} \<union> range OtherException \<longrightarrow> x = None) \<and>
           w' = w1 \<and>
           t' = t\<lparr> steps := steps t' \<rparr> \<and>
           (k \<notin> set (map key (steps t)) \<longrightarrow>
              steps t' = steps t @ [\<lparr> key = k, label = lb, status = st, detail = dt \<rparr>]) \<and>
           (k \<in> set (map key (steps t)) \<longrightarrow>
              (\<exists>pre s post. steps t = pre @ s # post \<and> key s = k \<and>
                 k \<notin> set (map key pre) \<and>
                 steps t' =
                   pre @ s\<lparr> status := st, detail := (if dt = [] then detail s else dt) \<rparr> # post)) \<and>
           steps t' = steps (fst (snd (do_call c (t\<lparr> refresh_cb := None \<rparr>) w)))"
proof -
  define t1 where "t1 = fst (snd (do_call c t w))"
  note r = do_call_refresh [OF assms(2,3), of w, folded t1_def]
  from r have t1: "t1 = t\<lparr> steps := steps t1 \<rparr>" by blast
  then have "refresh_cb t1 = refresh_cb t" "title t1 = title t"
    by (metis tracker.select_convs tracker.surjective tracker.update_convs)+
  with assms(1,4) have "refresh_cb t1 = Some cb" "cb (title t1, steps t1) w = (Some e, w1)"
    by (simp_all add: t1_def)
  then have m: "maybe_refresh t1 w = (if isinstance_Exception e then None else Some e, w1)"
    by (rule maybe_refresh_raises)
  from r have d: "do_call c t w = (if isinstance_Exception e then None else Some e, t1, w1)"
    unfolding m by simp
  have s: "steps t1 = steps (fst (snd (do_call c (t\<lparr> refresh_cb := None \<rparr>) w)))"
    unfolding t1_def by (rule steps_do_call_no_cb)
  have i: "e \<in> {KeyboardInterrupt, SystemExit, GeneratorExit} \<longrightarrow> \<not> isinstance_Exception e"
    "e \<in> {ValueError, OverflowError, OSError} \<union> range OtherException \<longrightarrow> isinstance_Exception e"
    by auto
  from r have n: "k \<notin> set (map key (steps t)) \<longrightarrow>
      steps t1 = steps t @ [\<lparr> key = k, label = lb, status = st, detail = dt \<rparr>]"
    and o: "k \<in> set (map key (steps t)) \<longrightarrow>
      (\<exists>pre s post. steps t = pre @ s # post \<and> key s = k \<and> k \<notin> set (map key pre) \<and>
         steps t1 = pre @ s\<lparr> status := st, detail := (if dt = [] then detail s else dt) \<rparr> # post)"
    by blast+
  show ?thesis unfolding d prod.case
  proof (intro conjI)
    show "t1 = t\<lparr> steps := steps t1 \<rparr>" by (rule t1)
  qed (use i n o s in simp_all)
qed

theorem callback_exceptions_by_class_witness:
  "refresh_cb (fst (snd (add (lit ''a'') (lit ''A'')
      (attach_refresh (Some (raising_cb SystemExit)) (StepTracker_init (lit ''T''))) 0))) =
     Some (raising_cb SystemExit) \<and>
   Complete (lit ''a'') (lit ''ok'') \<noteq> (Add (lit ''a'') (lit ''A'') :: nat call) \<and>
   do_call (Complete (lit ''a'') (lit ''ok''))
     (fst (snd (add (lit ''a'') (lit ''A'')
        (attach_refresh (Some (raising_cb SystemExit)) (StepTracker_init (lit ''T''))) 0))) 1 =
     (Some SystemExit,
      \<lparr> title = lit ''T'',
        steps = [\<lparr> key = lit ''a'', label = lit ''A'', status = lit ''done'',
                   detail = lit ''ok'' \<rparr>],
        status_order = [(lit ''pending'', 0), (lit ''running'', 1), (lit ''done'', 2),
                        (lit ''error'', 3), (lit ''skipped'', 4)],
        refresh_cb = Some (raising_cb SystemExit) \<rparr>, 2) \<and>
   do_call (Add (lit ''b'') (lit ''B''))
     (attach_refresh (Some (raising_cb ValueError)) (StepTracker_init (lit ''T''))) 0 =
     (None,
      \<lparr> title = lit ''T'',
        steps = [\<lparr> key = lit ''b'', label = lit ''B'', status = lit ''pending'', detail = [] \<rparr>],
        status_order = [(lit ''pending'', 0), (lit ''running'', 1), (lit ''done'', 2),
                        (lit ''error'', 3), (lit ''skipped'', 4)],
        refresh_cb = Some (raising_cb ValueError) \<rparr>, 1)"
  using callback_exceptions_by_class [where
      t = "fst (snd (add (lit ''a'') (lit ''A'')
        (attach_refresh (Some (raising_cb SystemExit)) (StepTracker_init (lit ''T''))) 0))"
      and cb = "raising_cb SystemExit" and c = "Complete (lit ''a'') (lit ''ok'')"
      and st = "lit ''done''" and lb = "lit ''a''" and dt = "lit ''ok''" and k = "lit ''a''"
      and d = "lit ''ok''" and l = "lit ''A''" and w = 1 and e = SystemExit and ?w1.0 = 2]
    callback_exceptions_by_class [where
      t = "attach_refresh (Some (raising_cb ValueError)) (StepTracker_init (lit ''T''))"
      and cb = "raising_cb ValueError" and c = "Add (lit ''b'') (lit ''B'')"
      and st = "lit ''pending''" and lb = "lit ''B''" and dt = "[]" and k = "lit ''b''"
      and d = "[]" and l = "lit ''B''" and w = 0 and e = ValueError and ?w1.0 = 1]
  by (simp add: StepTracker_init_def attach_refresh_def add_def complete_def update_def
      maybe_refresh_def raising_cb_def truthy_def lit_def)

text \<open>
  The claim as stated fails for what \<open>except Exception\<close> lets through: a callback that
  raises \<open>KeyboardInterrupt\<close> makes \<open>start\<close> raise it.
\<close>

theorem callback_exception_counterexample:
  "fst (start (lit ''a'') [] (attach_refresh (Some (raising_cb KeyboardInterrupt))
      (StepTracker_init (lit ''T''))) 0) = Some KeyboardInterrupt"
  by (simp add: start_def update_def attach_refresh_def StepTracker_init_def maybe_refresh_def
      raising_cb_def)

text \<open>
  Claim C8 fails for a duplicate key: a second \<open>add\<close> of the key \<open>a\<close> leaves the world of
  a counting callback at 1, where a call of the callback would have made it 2.
\<close>

theorem add_duplicate_no_refresh_counterexample:
  "snd (snd (add (lit ''a'') (lit ''A'')
     (fst (snd (add (lit ''a'') (lit ''A'')
        (attach_refresh (Some counting_cb) (StepTracker_init (lit ''T''))) 0))) 1)) = 1 \<and>
   snd (counting_cb (lit ''T'', steps (fst (snd (add (lit ''a'') (lit ''A'')
        (attach_refresh (Some counting_cb) (StepTracker_init (lit ''T''))) 0)))) 1) = 2"
  by (simp add: add_def attach_refresh_def StepTracker_init_def maybe_refresh_def
      counting_cb_def)

text \<open>
  Claim C8, as amended. \<open>add\<close> with a key that is not registered appends a step in status
  \<open>pending\<close> with empty detail and then refreshes: an attached callback is called once, on
  the state that holds the new step. \<open>add\<close> with a registered key returns at once, with
  no refresh.
\<close>

theorem add_refreshes_when_new:
  "(k \<notin> set (map key (steps t)) \<longrightarrow>
      (case add k l t w of (e, t', w') \<Rightarrow>
         steps t' = steps t @ [\<lparr> key = k, label = l, status = lit ''pending'', detail = [] \<rparr>] \<and>
         (e, w') = maybe_refresh t' w \<and>
         (\<forall>cb. refresh_cb t = Some cb \<longrightarrow> w' = snd (cb (title t, steps t') w)))) \<and>
   (k \<in> set (map key (steps t)) \<longrightarrow> add k l t w = (None, t, w))"
  by (auto simp: add_def Let_def maybe_refresh_def split: prod.splits option.splits)

theorem add_refreshes_when_new_witness:
  "lit ''a'' \<notin> set (map key (steps (attach_refresh (Some counting_cb)
      (StepTracker_init (lit ''T''))))) \<and>
   refresh_cb (attach_refresh (Some counting_cb) (StepTracker_init (lit ''T''))) =
     Some counting_cb \<and>
   snd (snd (add (lit ''a'') (lit ''A'')
      (attach_refresh (Some counting_cb) (StepTracker_init (lit ''T''))) 0)) = 1 \<and>
   steps (fst (snd (add (lit ''a'') (lit ''A'')
      (attach_refresh (Some counting_cb) (StepTracker_init (lit ''T''))) 0))) =
     [\<lparr> key = lit ''a'', label = lit ''A'', status = lit ''pending'', detail = [] \<rparr>]"
  using add_refreshes_when_new [of "lit ''a''"
      "attach_refresh (Some counting_cb) (StepTracker_init (lit ''T''))" "lit ''A''" 0]
  by (simp add: add_def attach_refresh_def StepTracker_init_def maybe_refresh_def
      counting_cb_def)

lemma steps_at_nth:
  "steps_at s as = Some ss \<Longrightarrow>
     length ss = length as \<and> (\<forall>i < length as. cell s (as ! i) = Some (DictObj (ss ! i)))"
proof (induction as arbitrary: ss)
  case Nil
  then show ?case by simp
next
  case (Cons a as)
  from Cons.prems obtain st ss' where c: "cell s a = Some (DictObj st)"
    and r: "steps_at s as = Some ss'" and e: "ss = st # ss'"
    by (auto split: option.splits obj.splits)
  from Cons.IH [OF r] c e show ?case by (auto simp: nth_Cons split: nat.splits)
qed

lemma steps_at_cong:
  "(\<And>a. a \<in> set as \<Longrightarrow> cell s' a = cell s a) \<Longrightarrow> steps_at s' as = steps_at s as"
  by (induction as) (auto split: option.splits obj.splits)

lemma render_loop_eq:
  "render_loop ss tr = tr\<lparr> children := children tr @ map render_line ss \<rparr>"
  by (induction ss arbitrary: tr) (simp_all add: tree_add_def)

lemma steps_at_dict:
  "steps_at s as = Some ss \<Longrightarrow> a \<in> set as \<Longrightarrow> \<exists>st. cell s a = Some (DictObj st)"
  by (induction as arbitrary: ss) (auto split: option.splits obj.splits)

lemma cell_update: "cell (s[a := ob]) b = (if b = a \<and> a < length s then Some ob else cell s b)"
  by (simp add: cell_def)

lemma cell_append: "a < length s \<Longrightarrow> cell (s @ xs) a = cell s a"
  by (simp add: cell_def nth_append)

lemma cell_Some_less: "cell s a = Some ob \<Longrightarrow> a < length s \<and> s ! a = ob"
  by (simp add: cell_def split: if_splits)

lemma render_for_steps:
  assumes "cell s lst = Some (ListObj as)" and "steps_at s as = Some ss"
    and "cell s tr = Some (TreeObj t0)" and "i \<le> length as"
  shows "render_for lst i tr s =
           (None, s[tr := TreeObj (t0\<lparr> children := children t0 @ map render_line (drop i ss) \<rparr>)])"
  using assms
proof (induction "length as - i" arbitrary: i s t0)
  case 0
  from steps_at_nth [OF "0.prems"(2)] have l: "length ss = length as" by simp
  from 0 have i: "i = length as" by simp
  from cell_Some_less [OF "0.prems"(3)] have "s[tr := TreeObj t0] = s"
    by (metis list_update_id)
  with i l "0.prems"(1) show ?case
    by (subst render_for.simps) simp
next
  case (Suc n)
  from Suc.hyps(2) have i: "i < length as" by simp
  from steps_at_nth [OF Suc.prems(2)] i have l: "length ss = length as"
    and d: "cell s (as ! i) = Some (DictObj (ss ! i))" by simp_all
  define t1 where "t1 = tree_add (render_line (ss ! i)) t0"
  define s1 where "s1 = s[tr := TreeObj t1]"
  have a: "tree_add_obj tr (render_line (ss ! i)) s = (None, s1)"
    using Suc.prems(3) by (simp add: tree_add_obj_def s1_def t1_def)
  from Suc.prems(1,3) have ne: "tr \<noteq> lst" by auto
  then have c1: "cell s1 lst = Some (ListObj as)"
    using Suc.prems(1) by (simp add: s1_def cell_update)
  have "steps_at s1 as = steps_at s as"
  proof (rule steps_at_cong)
    fix a assume "a \<in> set as"
    from steps_at_dict [OF Suc.prems(2) this] Suc.prems(3) have "a \<noteq> tr" by auto
    then show "cell s1 a = cell s a" by (simp add: s1_def cell_update)
  qed
  with Suc.prems(2) have c2: "steps_at s1 as = Some ss" by simp
  from cell_Some_less [OF Suc.prems(3)] have c3: "cell s1 tr = Some (TreeObj t1)"
    by (simp add: s1_def cell_update)
  from Suc.hyps(2) have n: "n = length as - Suc i" by simp
  from i have le: "Suc i \<le> length as" by simp
  have "render_for lst (Suc i) tr s1 =
          (None, s1[tr := TreeObj (t1\<lparr> children := children t1 @
             map render_line (drop (Suc i) ss) \<rparr>)])"
    by (rule Suc.hyps(1) [OF n c1 c2 c3 le])
  moreover have "drop i ss = ss ! i # drop (Suc i) ss"
    using i l by (simp add: Cons_nth_drop_Suc)
  ultimately have "render_for lst (Suc i) tr s1 =
          (None, s[tr := TreeObj (t0\<lparr> children := children t0 @ map render_line (drop i ss) \<rparr>)])"
    by (simp add: s1_def t1_def tree_add_def)
  with Suc.prems(1) i d a show ?case
    by (subst render_for.simps) simp
qed

lemma tracker_at_append:
  assumes "tracker_at s self = Some t"
  shows "tracker_at (s @ xs) self = Some t"
proof -
  from assms obtain ob as ss where o: "cell s self = Some (TrackerObj ob)"
    and l: "cell s (self_steps ob) = Some (ListObj as)" and ss: "steps_at s as = Some ss"
    and t: "t = \<lparr> title = self_title ob, steps = ss, status_order = self_status_order ob,
                   refresh_cb = self_refresh_cb ob \<rparr>"
    by (auto simp: tracker_at_def split: option.splits obj.splits)
  have "steps_at (s @ xs) as = steps_at s as"
  proof (rule steps_at_cong)
    fix a assume "a \<in> set as"
    from steps_at_dict [OF ss this] obtain st where "cell s a = Some (DictObj st)" by blast
    then have "a < length s" by (simp add: cell_Some_less)
    then show "cell (s @ xs) a = cell s a" by (rule cell_append)
  qed
  with o l ss t show ?thesis
    by (simp add: tracker_at_def cell_append cell_Some_less)
qed

lemma render_obj_tracker:
  assumes "tracker_at s self = Some t"
  shows "render_obj self s = (Inr (length s), s @ [TreeObj (fst (render t))])"
proof -
  from assms obtain ob as ss where o: "cell s self = Some (TrackerObj ob)"
    and l: "cell s (self_steps ob) = Some (ListObj as)" and ss: "steps_at s as = Some ss"
    and t: "t = \<lparr> title = self_title ob, steps = ss, status_order = self_status_order ob,
                   refresh_cb = self_refresh_cb ob \<rparr>"
    by (auto simp: tracker_at_def split: option.splits obj.splits)
  define t0 where "t0 = Tree (lit ''[cyan]'' @ self_title ob @ lit ''[/cyan]'') (lit ''grey50'')"
  define s1 where "s1 = s @ [TreeObj t0]"
  from l have l1: "cell s1 (self_steps ob) = Some (ListObj as)"
    by (simp add: s1_def cell_append cell_Some_less)
  have "steps_at s1 as = steps_at s as"
  proof (rule steps_at_cong)
    fix a assume "a \<in> set as"
    from steps_at_dict [OF ss this] obtain st where "cell s a = Some (DictObj st)" by blast
    then have "a < length s" by (simp add: cell_Some_less)
    then show "cell s1 a = cell s a" unfolding s1_def by (rule cell_append)
  qed
  with ss have ss1: "steps_at s1 as = Some ss" by simp
  have tr: "cell s1 (length s) = Some (TreeObj t0)" by (simp add: s1_def cell_def)
  have "render_for (self_steps ob) 0 (length s) s1 =
          (None, s1[length s := TreeObj (t0\<lparr> children := children t0 @
             map render_line (drop 0 ss) \<rparr>)])"
    by (rule render_for_steps [OF l1 ss1 tr]) simp
  moreover have "t0\<lparr> children := children t0 @ map render_line (drop 0 ss) \<rparr> = fst (render t)"
    by (simp add: t0_def t render_def Tree_def render_loop_eq)
  ultimately have "render_for (self_steps ob) 0 (length s) s1 =
      (None, s @ [TreeObj (fst (render t))])"
    by (simp add: s1_def)
  with o show ?thesis
    by (simp add: render_obj_def new_obj_def t0_def s1_def)
qed

text \<open>
  Claim C9. Let the objects at \<open>self\<close> make up the tracker \<open>t\<close>. Then \<open>render\<close> raises
  nothing and returns a new object, and the store after the call is the store before it
  with that one object at its end: no object that existed is written to, so the tracker,
  its list of steps and every step dict are as they were, and the objects still make up
  \<open>t\<close>, with its title, steps and callback. A second call returns another new object with
  the same contents and leaves the first one alone. The tree is a function of the title and
  the steps only: the title in cyan as its label, the guide style \<open>grey50\<close>, and the line
  of each step, in order, as its children.
\<close>

theorem render_pure:
  assumes "tracker_at s self = Some t"
  shows "render_obj self s = (Inr (length s), s @ [TreeObj (fst (render t))]) \<and>
         tracker_at (snd (render_obj self s)) self = Some t \<and>
         render_obj self (snd (render_obj self s)) =
           (Inr (Suc (length s)), s @ [TreeObj (fst (render t)), TreeObj (fst (render t))]) \<and>
         fst (render t) =
           \<lparr> tree_label = lit ''[cyan]'' @ title t @ lit ''[/cyan]'', guide_style = lit ''grey50'',
              children = map render_line (steps t) \<rparr>"
proof -
  note r = render_obj_tracker [OF assms]
  have a: "tracker_at (s @ [TreeObj (fst (render t))]) self = Some t"
    using assms by (rule tracker_at_append)
  from render_obj_tracker [OF a]
  have r2: "render_obj self (s @ [TreeObj (fst (render t))]) =
      (Inr (Suc (length s)), s @ [TreeObj (fst (render t)), TreeObj (fst (render t))])"
    by simp
  have f: "fst (render t) =
           \<lparr> tree_label = lit ''[cyan]'' @ title t @ lit ''[/cyan]'', guide_style = lit ''grey50'',
              children = map render_line (steps t) \<rparr>"
    by (simp add: render_def Tree_def render_loop_eq)
  from r a r2 f show ?thesis by simp
qed

theorem render_pure_witness:
  "tracker_at
     [TrackerObj \<lparr> self_title = lit ''T'', self_steps = 1, self_status_order = [],
                   self_refresh_cb = Some counting_cb \<rparr>,
      ListObj [3, 2],
      DictObj \<lparr> key = lit ''b'', label = lit ''B'', status = lit ''done'', detail = lit '' ok '' \<rparr>,
      DictObj \<lparr> key = lit ''a'', label = lit ''A'', status = lit ''pending'', detail = [] \<rparr>] 0 =
     Some \<lparr> title = lit ''T'',
            steps = [\<lparr> key = lit ''a'', label = lit ''A'', status = lit ''pending'', detail = [] \<rparr>,
                     \<lparr> key = lit ''b'', label = lit ''B'', status = lit ''done'',
                        detail = lit '' ok '' \<rparr>],
            status_order = [], refresh_cb = Some counting_cb \<rparr> \<and>
   render_obj 0
     [TrackerObj \<lparr> self_title = lit ''T'', self_steps = 1, self_status_order = [],
                   self_refresh_cb = Some counting_cb \<rparr>,
      ListObj [3, 2],
      DictObj \<lparr> key = lit ''b'', label = lit ''B'', status = lit ''done'', detail = lit '' ok '' \<rparr>,
      DictObj \<lparr> key = lit ''a'', label = lit ''A'', status = lit ''pending'', detail = [] \<rparr>] =
     (Inr 4,
      [TrackerObj \<lparr> self_title = lit ''T'', self_steps = 1, self_status_order = [],
                    self_refresh_cb = Some counting_cb \<rparr>,
       ListObj [3, 2],
       DictObj \<lparr> key = lit ''b'', label = lit ''B'', status = lit ''done'', detail = lit '' ok '' \<rparr>,
       DictObj \<lparr> key = lit ''a'', label = lit ''A'', status = lit ''pending'', detail = [] \<rparr>,
       TreeObj \<lparr> tree_label = lit ''[cyan]T[/cyan]'', guide_style = lit ''grey50'',
                 children =
                   [lit ''[green dim]'' @ [9675] @ lit ''[/green dim] [bright_black]A[/bright_black]'',
                    lit ''[green]'' @ [9679] @
                      lit ''[/green] [white]B[/white] [bright_black](ok)[/bright_black]''] \<rparr>])"
  using render_pure [where self = 0 and s =
      "[TrackerObj \<lparr> self_title = lit ''T'', self_steps = 1, self_status_order = [],
                   self_refresh_cb = Some counting_cb \<rparr>,
      ListObj [3, 2],
      DictObj \<lparr> key = lit ''b'', label = lit ''B'', status = lit ''done'', detail = lit '' ok '' \<rparr>,
      DictObj \<lparr> key = lit ''a'', label = lit ''A'', status = lit ''pending'', detail = [] \<rparr>]"
      and t = "\<lparr> title = lit ''T'',
            steps = [\<lparr> key = lit ''a'', label = lit ''A'', status = lit ''pending'', detail = [] \<rparr>,
                     \<lparr> key = lit ''b'', label = lit ''B'', status = lit ''done'',
                        detail = lit '' ok '' \<rparr>],
            status_order = [], refresh_cb = Some counting_cb \<rparr>"]
  by (simp add: tracker_at_def cell_def render_line_def symbol_def Let_def truthy_def strip_def
      py_isspace_def lit_def)

section \<open>Properties of the authorization header\<close>

lemma py_or_is_set: "py_or a b = (if is_set a then a else b)"
  by (simp add: py_or_def is_set_def truthy_def split: option.splits)

lemma is_set_Some: "is_set x \<Longrightarrow> \<exists>s. x = Some s \<and> s \<noteq> []"
  by (cases x) (simp_all add: is_set_def)

lemma github_token_chain:
  "github_token env cli =
     (let s = strip (case py_or (py_or (py_or cli (env (lit ''GH_TOKEN'')))
                       (env (lit ''GITHUB_TOKEN''))) (Some []) of Some s \<Rightarrow> s | None \<Rightarrow> [])
      in if s = [] then None else Some s)"
  by (simp add: github_token_def Let_def truthy_def)

lemma chain_spec:
  "(case py_or (py_or (py_or cli gh) ghub) (Some []) of Some s \<Rightarrow> s | None \<Rightarrow> []) =
   (if is_set cli then the cli else if is_set gh then the gh
    else if is_set ghub then the ghub else [])"
proof (cases "is_set cli")
  case True
  then show ?thesis by (auto simp: py_or_is_set dest: is_set_Some)
next
  case c: False
  show ?thesis
  proof (cases "is_set gh")
    case True
    with c show ?thesis by (auto simp: py_or_is_set dest: is_set_Some)
  next
    case g: False
    show ?thesis
    proof (cases "is_set ghub")
      case True
      with c g show ?thesis by (auto simp: py_or_is_set dest: is_set_Some)
    next
      case False
      with c g show ?thesis by (simp add: py_or_is_set is_set_def)
    qed
  qed
qed

lemma github_token_spec:
  "github_token env cli =
     (case spec_resolve_token env cli of
        None \<Rightarrow> None
      | Some t \<Rightarrow> if strip t = [] then None else Some (strip t))"
proof -
  have "\<And>x. is_set x \<Longrightarrow> x = Some (the x)" by (auto dest: is_set_Some)
  then show ?thesis
    unfolding github_token_chain chain_spec spec_resolve_token_def Let_def
    by (auto simp: strip_Nil split: option.splits)
qed

lemma strip_abc: "strip (lit ''abc'') = lit ''abc''"
  by (simp add: strip_def lit_def py_isspace_def)

lemma last_dropWhile: "dropWhile P xs \<noteq> [] \<Longrightarrow> last (dropWhile P xs) = last xs"
  by (induction xs) (auto split: if_splits)

lemma strip_char:
  "\<exists>a b. t = a @ strip t @ b \<and> list_all py_isspace a \<and> list_all py_isspace b \<and>
         (strip t \<noteq> [] \<longrightarrow> \<not> py_isspace (hd (strip t)) \<and> \<not> py_isspace (last (strip t)))"
proof -
  define r where "r = dropWhile py_isspace t"
  define a where "a = takeWhile py_isspace t"
  define b where "b = rev (takeWhile py_isspace (rev r))"
  have s: "strip t = rev (dropWhile py_isspace (rev r))" by (simp add: strip_def r_def)
  have t: "t = a @ r" by (simp add: a_def r_def)
  have "rev (takeWhile py_isspace (rev r) @ dropWhile py_isspace (rev r)) = r"
    by (simp only: takeWhile_dropWhile_id rev_rev_ident)
  then have r: "r = strip t @ b" by (simp only: rev_append s b_def)
  have la: "list_all py_isspace a"
    unfolding a_def list_all_iff by (auto dest: set_takeWhileD)
  have lb: "list_all py_isspace b"
    unfolding b_def list_all_iff by (auto dest: set_takeWhileD)
  have e: "\<not> py_isspace (hd (strip t)) \<and> \<not> py_isspace (last (strip t))" if n: "strip t \<noteq> []"
  proof -
    from n have d: "dropWhile py_isspace (rev r) \<noteq> []" by (simp add: s)
    then have rn: "r \<noteq> []" by auto
    from d have "\<not> py_isspace (hd (dropWhile py_isspace (rev r)))" by (rule hd_dropWhile)
    with d have l: "\<not> py_isspace (last (strip t))" by (simp add: s last_rev)
    from d have "last (dropWhile py_isspace (rev r)) = last (rev r)" by (rule last_dropWhile)
    with d rn have "hd (strip t) = hd r" by (simp add: s hd_rev last_rev)
    moreover from rn have "\<not> py_isspace (hd r)" unfolding r_def by (rule hd_dropWhile)
    ultimately show ?thesis using l by simp
  qed
  from t r la lb e show ?thesis by (metis append.assoc)
qed

lemma strip_sp_abc: "strip (lit '' abc '') = lit ''abc''"
  by (simp add: strip_def lit_def py_isspace_def)

text \<open>
  Claim C2, as amended. A source counts when it is set and not the empty string, and the
  first that counts among the explicit argument, \<open>GH_TOKEN\<close> and \<open>GITHUB_TOKEN\<close> is taken.
  Its value is then stripped, and the headers hold \<open>Authorization: Bearer\<close> followed by the
  stripped value exactly when that is not empty; otherwise they are empty, also when a
  later source holds a token. Stripping a string leaves what is between its leading and
  its trailing whitespace. An explicit \<open>abc\<close>, with or without blanks around it, gives
  \<open>Bearer abc\<close> in every environment; no explicit token and an empty environment give no
  entry.
\<close>

theorem auth_headers_precedence:
  "github_auth_headers env cli =
     (case spec_resolve_token env cli of
        None \<Rightarrow> []
      | Some t \<Rightarrow> if strip t = [] then []
                  else [(lit ''Authorization'', lit ''Bearer '' @ strip t)]) \<and>
   (\<exists>a b. s = a @ strip s @ b \<and> list_all py_isspace a \<and> list_all py_isspace b \<and>
      (strip s \<noteq> [] \<longrightarrow> \<not> py_isspace (hd (strip s)) \<and> \<not> py_isspace (last (strip s)))) \<and>
   github_auth_headers env (Some (lit ''abc'')) =
     [(lit ''Authorization'', lit ''Bearer abc'')] \<and>
   github_auth_headers env (Some (lit '' abc '')) =
     [(lit ''Authorization'', lit ''Bearer abc'')] \<and>
   github_auth_headers (environ_of []) None = []"
proof (intro conjI)
  show "github_auth_headers env cli =
     (case spec_resolve_token env cli of
        None \<Rightarrow> []
      | Some t \<Rightarrow> if strip t = [] then []
                  else [(lit ''Authorization'', lit ''Bearer '' @ strip t)])"
    by (simp add: github_auth_headers_def github_token_spec split: option.splits)
  show "\<exists>a b. s = a @ strip s @ b \<and> list_all py_isspace a \<and> list_all py_isspace b \<and>
      (strip s \<noteq> [] \<longrightarrow> \<not> py_isspace (hd (strip s)) \<and> \<not> py_isspace (last (strip s)))"
    by (rule strip_char)
  have "spec_resolve_token env (Some (lit ''abc'')) = Some (lit ''abc'')"
    by (simp add: spec_resolve_token_def is_set_def lit_def)
  then show "github_auth_headers env (Some (lit ''abc'')) =
     [(lit ''Authorization'', lit ''Bearer abc'')]"
    by (simp add: github_auth_headers_def github_token_spec strip_abc) (simp add: lit_def)
  have "spec_resolve_token env (Some (lit '' abc '')) = Some (lit '' abc '')"
    by (simp add: spec_resolve_token_def is_set_def lit_def)
  then show "github_auth_headers env (Some (lit '' abc '')) =
     [(lit ''Authorization'', lit ''Bearer abc'')]"
    by (simp add: github_auth_headers_def github_token_spec strip_sp_abc) (simp add: lit_def)
  show "github_auth_headers (environ_of []) None = []"
    by (simp add: github_auth_headers_def github_token_spec spec_resolve_token_def is_set_def)
qed

theorem auth_headers_precedence_witness:
  "github_auth_headers (environ_of [(lit ''GH_TOKEN'', lit ''xyz'')]) (Some (lit ''abc'')) =
     [(lit ''Authorization'', lit ''Bearer abc'')] \<and>
   github_auth_headers (environ_of [(lit ''GITHUB_TOKEN'', lit '' xyz'')]) (Some []) =
     [(lit ''Authorization'', lit ''Bearer xyz'')] \<and>
   strip (lit '' x y '') = lit ''x y''"
  using auth_headers_precedence [of "environ_of [(lit ''GH_TOKEN'', lit ''xyz'')]" None "lit '' x y ''"]
    auth_headers_precedence [of "environ_of [(lit ''GITHUB_TOKEN'', lit '' xyz'')]" "Some []" "[]"]
  by (simp add: spec_resolve_token_def is_set_def strip_def py_isspace_def lit_def)

text \<open>
  Claim C2 as stated fails where stripping matters. An explicit token of one blank is not
  empty, so it is the token resolved, and yet there is no entry; an explicit \<open>abc\<close> with
  blanks around it gives \<open>Bearer abc\<close> and not the token as resolved; and a blank
  \<open>GH_TOKEN\<close> gives no entry, where the words of the claim give one.
\<close>

theorem auth_headers_unstripped_counterexample:
  "spec_resolve_token (environ_of []) (Some (lit '' '')) = Some (lit '' '') \<and>
   lit '' '' \<noteq> [] \<and>
   spec_auth_headers (environ_of []) (Some (lit '' '')) =
     [(lit ''Authorization'', lit ''Bearer  '')] \<and>
   github_auth_headers (environ_of []) (Some (lit '' '')) = [] \<and>
   spec_auth_headers (environ_of []) (Some (lit '' abc '')) =
     [(lit ''Authorization'', lit ''Bearer  abc '')] \<and>
   github_auth_headers (environ_of []) (Some (lit '' abc '')) =
     [(lit ''Authorization'', lit ''Bearer abc'')] \<and>
   spec_auth_headers (environ_of [(lit ''GH_TOKEN'', lit '' ''), (lit ''GITHUB_TOKEN'', lit ''xyz'')])
     None = [(lit ''Authorization'', lit ''Bearer  '')] \<and>
   github_auth_headers (environ_of [(lit ''GH_TOKEN'', lit '' ''), (lit ''GITHUB_TOKEN'', lit ''xyz'')])
     None = []"
  by (simp add: spec_auth_headers_def spec_resolve_token_def is_set_def github_auth_headers_def
      github_token_def py_or_def truthy_def strip_def lit_def py_isspace_def)

lemma strip_all_space:
  assumes "\<forall>c \<in> set t. py_isspace c"
  shows "strip t = []"
proof -
  from assms have d: "dropWhile py_isspace t = []" by (induction t) simp_all
  show ?thesis unfolding strip_def d by simp
qed

text \<open>
  Claim C10. An explicit token that is not empty and consists of whitespace only gives no
  \<open>Authorization\<close> header, whatever the environment holds: it is truthy, so the chain
  stops at it, and stripping leaves nothing.
\<close>

theorem whitespace_token_anonymous:
  assumes "t \<noteq> []" and "\<forall>c \<in> set t. py_isspace c"
  shows "github_auth_headers env (Some t) = []"
proof -
  from assms(1) have "spec_resolve_token env (Some t) = Some t"
    by (simp add: spec_resolve_token_def is_set_def)
  moreover from assms(2) have "strip t = []" by (rule strip_all_space)
  ultimately show ?thesis by (simp add: github_auth_headers_def github_token_spec)
qed

theorem whitespace_token_anonymous_witness:
  "lit '' '' \<noteq> [] \<and> list_all py_isspace (lit '' '') \<and>
   environ_of [(lit ''GH_TOKEN'', lit ''xyz'')] (lit ''GH_TOKEN'') = Some (lit ''xyz'') \<and>
   github_auth_headers (environ_of [(lit ''GH_TOKEN'', lit ''xyz'')]) (Some (lit '' '')) = [] \<and>
   github_auth_headers (environ_of [(lit ''GH_TOKEN'', lit ''xyz'')]) None =
     [(lit ''Authorization'', lit ''Bearer xyz'')]"
proof -
  have a: "lit '' '' \<noteq> []" by (simp add: lit_def)
  have b: "\<forall>c \<in> set (lit '' ''). py_isspace c" by (simp add: lit_def py_isspace_def)
  have c: "github_auth_headers (environ_of [(lit ''GH_TOKEN'', lit ''xyz'')]) None =
     [(lit ''Authorization'', lit ''Bearer xyz'')]"
    by (simp add: github_auth_headers_def github_token_def py_or_def truthy_def strip_def
        lit_def py_isspace_def)
  from whitespace_token_anonymous [OF a b] a b c show ?thesis
    by (simp add: list_all_iff)
qed

section \<open>Properties of the rate-limit inspector\<close>

lemma py_int_abc: "py_int P (lit ''abc'') = None"
  by (simp add: py_int_def lit_def int_space_def digit_of_def py_isspace_def Let_def)

lemma py_int_soon: "py_int P (lit ''soon'') = None"
  by (simp add: py_int_def lit_def int_space_def digit_of_def py_isspace_def Let_def)

lemma py_int_zero: "py_int P (lit ''0'') = Some 0"
  by (simp add: py_int_def lit_def int_space_def digit_of_def py_isspace_def Let_def)

lemma get_header_present:
  "has_header hs k \<Longrightarrow> get_header hs k d = Some (join (lit '', '') (values_of hs k))"
  by (simp add: has_header_def get_header_def)

lemma parse_reset_raises:
  assumes "has_header hs (lit ''X-RateLimit-Reset'')"
    and "py_int P (join (lit '', '') (values_of hs (lit ''X-RateLimit-Reset''))) = None"
  shows "parse_rate_limit_headers P hs = Inl ValueError"
    and "format_rate_limit_error P sc hs url = Inl ValueError"
proof -
  from assms show p: "parse_rate_limit_headers P hs = Inl ValueError"
    by (simp add: parse_rate_limit_headers_def Let_def parse_reset_def get_header_present)
  then show "format_rate_limit_error P sc hs url = Inl ValueError"
    by (simp add: format_rate_limit_error_def)
qed

lemma has_reset_single:
  "has_header [(lit ''X-RateLimit-Reset'', v)] (lit ''X-RateLimit-Reset'')"
  "values_of [(lit ''X-RateLimit-Reset'', v)] (lit ''X-RateLimit-Reset'') = [v]"
  by (simp_all add: has_header_def values_of_def)

lemma has_reset_second:
  "has_header [(lit ''X-RateLimit-Remaining'', r), (lit ''X-RateLimit-Reset'', v)]
     (lit ''X-RateLimit-Reset'')"
  "values_of [(lit ''X-RateLimit-Remaining'', r), (lit ''X-RateLimit-Reset'', v)]
     (lit ''X-RateLimit-Reset'') = [v]"
  by (simp_all add: has_header_def values_of_def ascii_lower_def lit_def)

lemma retry_only:
  "parse_rate_limit_headers P [(lit ''Retry-After'', lit ''abc'')] =
     Inr (empty_info\<lparr> retry_after := Some (lit ''abc'') \<rparr>)"
proof -
  have v: "values_of [(lit ''Retry-After'', lit ''abc'')] k =
      (if ascii_lower (lit ''Retry-After'') = ascii_lower k then [lit ''abc''] else [])" for k
    by (simp add: values_of_def)
  have l: "ascii_lower (lit ''Retry-After'') = lit ''retry-after''"
    "ascii_lower (lit ''X-RateLimit-Limit'') = lit ''x-ratelimit-limit''"
    "ascii_lower (lit ''X-RateLimit-Remaining'') = lit ''x-ratelimit-remaining''"
    "ascii_lower (lit ''X-RateLimit-Reset'') = lit ''x-ratelimit-reset''"
    by (simp_all add: ascii_lower_def lit_def)
  have n: "lit ''retry-after'' \<noteq> lit ''x-ratelimit-limit''"
    "lit ''retry-after'' \<noteq> lit ''x-ratelimit-remaining''"
    "lit ''retry-after'' \<noteq> lit ''x-ratelimit-reset''"
    by (simp_all add: lit_def)
  show ?thesis
    by (simp add: parse_rate_limit_headers_def Let_def has_header_def get_header_def v l n
        parse_retry_def py_int_abc)
qed

lemma format_first_line:
  assumes "parse_rate_limit_headers P hs = Inr i"
  shows "\<exists>rest. format_rate_limit_error P sc hs url =
           Inr (lit ''GitHub API returned status '' @ show_int sc @ lit '' for '' @ url @
                [10] @ rest)"
  using assms by (simp add: format_rate_limit_error_def)

text \<open>
  Claim C1 fails on the header \<open>X-RateLimit-Reset: abc\<close>: \<open>int\<close> raises \<open>ValueError\<close>, which
  nothing catches, so the parse raises it and the formatting, which calls the parse first,
  raises it too. The same value in \<open>Retry-After\<close> is caught and kept as the raw string.
\<close>

theorem parse_raises_on_non_numeric_reset:
  "parse_rate_limit_headers utc_platform [(lit ''X-RateLimit-Reset'', lit ''abc'')] =
     Inl ValueError \<and>
   format_rate_limit_error utc_platform 403 [(lit ''X-RateLimit-Reset'', lit ''abc'')]
     (lit ''https://api.github.com/'') = Inl ValueError \<and>
   parse_rate_limit_headers utc_platform [(lit ''Retry-After'', lit ''abc'')] =
     Inr (empty_info\<lparr> retry_after := Some (lit ''abc'') \<rparr>)"
  using parse_reset_raises [of "[(lit ''X-RateLimit-Reset'', lit ''abc'')]" utc_platform]
  by (simp add: has_reset_single py_int_abc retry_only)

text \<open>
  Claim C7 fails on status 403 with the headers \<open>X-RateLimit-Remaining: 0\<close> and
  \<open>X-RateLimit-Reset: soon\<close>: the formatting raises \<open>ValueError\<close> before it has built its
  first line, so no message with the status code and the address is produced.
\<close>

theorem format_raises_on_non_numeric_reset:
  "format_rate_limit_error utc_platform 403
     [(lit ''X-RateLimit-Remaining'', lit ''0''), (lit ''X-RateLimit-Reset'', lit ''soon'')]
     (lit ''https://api.github.com/repos/o/r/releases/latest'') = Inl ValueError"
  using parse_reset_raises(2) [of "[(lit ''X-RateLimit-Remaining'', lit ''0''),
      (lit ''X-RateLimit-Reset'', lit ''soon'')]" utc_platform]
  by (simp add: has_reset_second py_int_soon)

lemma get_header_None: "get_header hs k None = Some v \<Longrightarrow> has_header hs k"
  by (simp add: has_header_def get_header_def split: if_splits)

lemma parse_reset_frame:
  assumes "parse_reset P hs i = Inr j"
  shows "limit j = limit i \<and> remaining j = remaining i \<and>
         retry_after_seconds j = retry_after_seconds i \<and> retry_after j = retry_after i"
  using assms
  by (auto simp: parse_reset_def split: option.splits sum.splits if_splits)

lemma parse_retry_frame:
  assumes "has_header hs (lit ''Retry-After'')"
  shows "\<exists>j. parse_retry P hs i = Inr j \<and> limit j = limit i \<and> remaining j = remaining i \<and>
           reset_epoch j = reset_epoch i \<and> reset_time j = reset_time i \<and>
           reset_local j = reset_local i"
  using get_header_present [OF assms, of None]
  by (simp add: parse_retry_def split: option.splits)

lemma parse_reset_zero:
  assumes "has_header hs (lit ''X-RateLimit-Reset'')"
    and "py_int P (join (lit '', '') (values_of hs (lit ''X-RateLimit-Reset''))) = Some 0"
  shows "parse_reset P hs i = Inr i"
  using assms by (simp add: parse_reset_def get_header_present)

lemma parse_after_reset:
  assumes "(if has_header hs (lit ''X-RateLimit-Reset'') then parse_reset P hs i else Inr i) = Inr j"
  shows "\<exists>info. (if has_header hs (lit ''Retry-After'') then parse_retry P hs j else Inr j) =
             Inr info \<and>
           limit info = limit i \<and> remaining info = remaining i \<and>
           reset_epoch info = reset_epoch j \<and> reset_time info = reset_time j \<and>
           reset_local info = reset_local j \<and>
           (\<not> has_header hs (lit ''Retry-After'') \<longrightarrow>
              retry_after_seconds info = retry_after_seconds i \<and> retry_after info = retry_after i)"
proof -
  have f: "limit j = limit i \<and> remaining j = remaining i \<and>
         retry_after_seconds j = retry_after_seconds i \<and> retry_after j = retry_after i"
  proof (cases "has_header hs (lit ''X-RateLimit-Reset'')")
    case True
    with assms have "parse_reset P hs i = Inr j" by simp
    then show ?thesis by (rule parse_reset_frame)
  next
    case False
    with assms show ?thesis by simp
  qed
  show ?thesis
  proof (cases "has_header hs (lit ''Retry-After'')")
    case True
    from parse_retry_frame [OF True, of P j] f True show ?thesis by auto
  next
    case False
    with f show ?thesis by simp
  qed
qed

lemma parse_unfold:
  "parse_rate_limit_headers P hs =
     (case (if has_header hs (lit ''X-RateLimit-Reset'')
            then parse_reset P hs
                   (empty_info\<lparr> limit := (if has_header hs (lit ''X-RateLimit-Limit'')
                        then Some (join (lit '', '') (values_of hs (lit ''X-RateLimit-Limit'')))
                        else None),
                      remaining := (if has_header hs (lit ''X-RateLimit-Remaining'')
                        then Some (join (lit '', '') (values_of hs (lit ''X-RateLimit-Remaining'')))
                        else None) \<rparr>)
            else Inr (empty_info\<lparr> limit := (if has_header hs (lit ''X-RateLimit-Limit'')
                        then Some (join (lit '', '') (values_of hs (lit ''X-RateLimit-Limit'')))
                        else None),
                      remaining := (if has_header hs (lit ''X-RateLimit-Remaining'')
                        then Some (join (lit '', '') (values_of hs (lit ''X-RateLimit-Remaining'')))
                        else None) \<rparr>)) of
        Inl x \<Rightarrow> Inl x
      | Inr info3 \<Rightarrow>
          (if has_header hs (lit ''Retry-After'') then parse_retry P hs info3 else Inr info3))"
  by (simp add: parse_rate_limit_headers_def Let_def empty_info_def get_header_present)

text \<open>
  Claim C6. When the parse returns, \<open>limit\<close> and \<open>remaining\<close> are the values of their
  headers when these are present and are unset otherwise; the reset fields are unset when
  there is no \<open>X-RateLimit-Reset\<close> header, and both retry fields are unset when there is no
  \<open>Retry-After\<close> header. Without an \<open>X-RateLimit-Reset\<close> header the parse always returns.
  When the value of that header reads as the integer 0, as the string \<open>0\<close> does on every
  platform, the parse returns and the three reset fields are unset.
\<close>

theorem parsed_fields_only_when_present:
  "(parse_rate_limit_headers P hs = Inr info \<longrightarrow>
      limit info =
        (if has_header hs (lit ''X-RateLimit-Limit'')
         then Some (join (lit '', '') (values_of hs (lit ''X-RateLimit-Limit''))) else None) \<and>
      remaining info =
        (if has_header hs (lit ''X-RateLimit-Remaining'')
         then Some (join (lit '', '') (values_of hs (lit ''X-RateLimit-Remaining''))) else None) \<and>
      (\<not> has_header hs (lit ''X-RateLimit-Reset'') \<longrightarrow>
         reset_epoch info = None \<and> reset_time info = None \<and> reset_local info = None) \<and>
      (\<not> has_header hs (lit ''Retry-After'') \<longrightarrow>
         retry_after_seconds info = None \<and> retry_after info = None)) \<and>
   (\<not> has_header hs (lit ''X-RateLimit-Reset'') \<longrightarrow>
      (\<exists>i. parse_rate_limit_headers P hs = Inr i)) \<and>
   (get_header hs (lit ''X-RateLimit-Reset'') None = Some v \<and> py_int P v = Some 0 \<longrightarrow>
      (\<exists>i. parse_rate_limit_headers P hs = Inr i \<and>
         reset_epoch i = None \<and> reset_time i = None \<and> reset_local i = None)) \<and>
   py_int P (lit ''0'') = Some 0"
proof (intro conjI impI)
  define i0 where "i0 = empty_info\<lparr> limit := (if has_header hs (lit ''X-RateLimit-Limit'')
                        then Some (join (lit '', '') (values_of hs (lit ''X-RateLimit-Limit'')))
                        else None),
                      remaining := (if has_header hs (lit ''X-RateLimit-Remaining'')
                        then Some (join (lit '', '') (values_of hs (lit ''X-RateLimit-Remaining'')))
                        else None) \<rparr>"
  have i0: "limit i0 = (if has_header hs (lit ''X-RateLimit-Limit'')
         then Some (join (lit '', '') (values_of hs (lit ''X-RateLimit-Limit''))) else None)"
    "remaining i0 = (if has_header hs (lit ''X-RateLimit-Remaining'')
         then Some (join (lit '', '') (values_of hs (lit ''X-RateLimit-Remaining''))) else None)"
    "reset_epoch i0 = None" "reset_time i0 = None" "reset_local i0 = None"
    "retry_after_seconds i0 = None" "retry_after i0 = None"
    by (simp_all add: i0_def empty_info_def)
  have u: "parse_rate_limit_headers P hs =
     (case (if has_header hs (lit ''X-RateLimit-Reset'') then parse_reset P hs i0 else Inr i0) of
        Inl x \<Rightarrow> Inl x
      | Inr info3 \<Rightarrow>
          (if has_header hs (lit ''Retry-After'') then parse_retry P hs info3 else Inr info3))"
    unfolding i0_def by (rule parse_unfold)
  {
    assume p: "parse_rate_limit_headers P hs = Inr info"
    then obtain j where
      j: "(if has_header hs (lit ''X-RateLimit-Reset'') then parse_reset P hs i0 else Inr i0) = Inr j"
      and r: "(if has_header hs (lit ''Retry-After'') then parse_retry P hs j else Inr j) = Inr info"
      unfolding u by (auto split: sum.splits)
    from parse_after_reset [OF j] r
    have a: "limit info = limit i0" "remaining info = remaining i0"
      "reset_epoch info = reset_epoch j" "reset_time info = reset_time j"
      "reset_local info = reset_local j"
      "\<not> has_header hs (lit ''Retry-After'') \<longrightarrow>
         retry_after_seconds info = retry_after_seconds i0 \<and> retry_after info = retry_after i0"
      by auto
    from a(1) i0(1) show "limit info =
        (if has_header hs (lit ''X-RateLimit-Limit'')
         then Some (join (lit '', '') (values_of hs (lit ''X-RateLimit-Limit''))) else None)"
      by simp
    from a(2) i0(2) show "remaining info =
        (if has_header hs (lit ''X-RateLimit-Remaining'')
         then Some (join (lit '', '') (values_of hs (lit ''X-RateLimit-Remaining''))) else None)"
      by simp
    {
      assume n: "\<not> has_header hs (lit ''X-RateLimit-Reset'')"
      with j have "j = i0" by simp
      with a(3,4,5) i0(3,4,5)
      show "reset_epoch info = None" "reset_time info = None" "reset_local info = None"
        by simp_all
    }
    {
      assume n: "\<not> has_header hs (lit ''Retry-After'')"
      with a(6) i0(6,7) show "retry_after_seconds info = None" "retry_after info = None"
        by simp_all
    }
  }
  {
    assume n: "\<not> has_header hs (lit ''X-RateLimit-Reset'')"
    then have j: "(if has_header hs (lit ''X-RateLimit-Reset'') then parse_reset P hs i0
        else Inr i0) = Inr i0" by simp
    from parse_after_reset [OF j] obtain info' where
      "(if has_header hs (lit ''Retry-After'') then parse_retry P hs i0 else Inr i0) = Inr info'"
      by blast
    with n show "\<exists>i. parse_rate_limit_headers P hs = Inr i" unfolding u by simp
  }
  {
    assume z: "get_header hs (lit ''X-RateLimit-Reset'') None = Some v \<and> py_int P v = Some 0"
    then have h: "has_header hs (lit ''X-RateLimit-Reset'')" by (auto dest: get_header_None)
    from z get_header_present [OF h, of None]
    have "py_int P (join (lit '', '') (values_of hs (lit ''X-RateLimit-Reset''))) = Some 0"
      by simp
    with h have pr: "parse_reset P hs i0 = Inr i0" by (rule parse_reset_zero)
    with h have j: "(if has_header hs (lit ''X-RateLimit-Reset'') then parse_reset P hs i0
        else Inr i0) = Inr i0" by simp
    from parse_after_reset [OF j] obtain info' where
      i: "(if has_header hs (lit ''Retry-After'') then parse_retry P hs i0 else Inr i0) = Inr info'"
      "reset_epoch info' = reset_epoch i0" "reset_time info' = reset_time i0"
      "reset_local info' = reset_local i0"
      by blast
    from h pr i(1) have "parse_rate_limit_headers P hs = Inr info'" unfolding u by simp
    with i(2,3,4) i0(3,4,5)
    show "\<exists>i. parse_rate_limit_headers P hs = Inr i \<and>
         reset_epoch i = None \<and> reset_time i = None \<and> reset_local i = None"
      by simp
  }
  show "py_int P (lit ''0'') = Some 0" by (rule py_int_zero)
qed

theorem parsed_fields_only_when_present_witness:
  "get_header [(lit ''X-RateLimit-Reset'', lit ''0''), (lit ''x-ratelimit-limit'', lit ''60'')]
     (lit ''X-RateLimit-Reset'') None = Some (lit ''0'') \<and>
   py_int utc_platform (lit ''0'') = Some 0 \<and>
   \<not> has_header [(lit ''X-RateLimit-Reset'', lit ''0''), (lit ''x-ratelimit-limit'', lit ''60'')]
     (lit ''Retry-After'') \<and>
   parse_rate_limit_headers utc_platform
     [(lit ''X-RateLimit-Reset'', lit ''0''), (lit ''x-ratelimit-limit'', lit ''60'')] =
     Inr \<lparr> limit = Some (lit ''60''), remaining = None, reset_epoch = None, reset_time = None,
           reset_local = None, retry_after_seconds = None, retry_after = None \<rparr>"
proof -
  have v: "values_of [(lit ''X-RateLimit-Reset'', lit ''0''), (lit ''x-ratelimit-limit'', lit ''60'')]
      (lit ''X-RateLimit-Reset'') = [lit ''0'']"
    "values_of [(lit ''X-RateLimit-Reset'', lit ''0''), (lit ''x-ratelimit-limit'', lit ''60'')]
      (lit ''X-RateLimit-Limit'') = [lit ''60'']"
    "values_of [(lit ''X-RateLimit-Reset'', lit ''0''), (lit ''x-ratelimit-limit'', lit ''60'')]
      (lit ''X-RateLimit-Remaining'') = []"
    "values_of [(lit ''X-RateLimit-Reset'', lit ''0''), (lit ''x-ratelimit-limit'', lit ''60'')]
      (lit ''Retry-After'') = []"
    by (simp_all add: values_of_def ascii_lower_def lit_def)
  from parsed_fields_only_when_present [of utc_platform
      "[(lit ''X-RateLimit-Reset'', lit ''0''), (lit ''x-ratelimit-limit'', lit ''60'')]"
      "\<lparr> limit = Some (lit ''60''), remaining = None, reset_epoch = None, reset_time = None,
           reset_local = None, retry_after_seconds = None, retry_after = None \<rparr>" "lit ''0''"]
  show ?thesis
    by (simp add: v has_header_def get_header_def parse_rate_limit_headers_def Let_def
        parse_reset_def empty_info_def py_int_zero)
qed

end
